theory Spec2Isabelle
  imports Complex_Main "HOL-Library.Word"
begin

unbundle bit_operations_syntax

section \<open>The Ontogenesis service: data model\<close>

text \<open>
  The model follows \<^verbatim>\<open>OntogenesisService.ts\<close> and its \<^verbatim>\<open>types.ts\<close>.
  JavaScript numbers that hold measurements (fitness scores, rates, gene values) are
  modelled as \<^typ>\<open>real\<close>: rounding, NaN and the infinities of IEEE doubles are outside
  the model. Counters that only ever count up from zero and timestamps are \<^typ>\<open>nat\<close>.
  Strings are \<^typ>\<open>string\<close>, one \<^typ>\<open>char\<close> per UTF-16 code unit below 256.
\<close>

datatype KernelType =
  inference | reasoning | memory | perception | action | meta | integration | specialized

datatype BreedingMethod = asexual | crossover | multi_parent | synthetic | emergent

datatype MutationType =
  parameter_mutation | structural | behavioral | deletion | insertion | duplication

datatype GeneType =
  parameter_gene | switch_gene | selector_gene | sequence_gene | structure_gene

datatype KernelState = DORMANT | ACTIVE | BREEDING | EVALUATING | DEPRECATED | ARCHIVED

datatype EmergenceType =
  capability | behavior_emergence | structure_emergence | integration_emergence

datatype OntogenesisEventType =
  kernel_created | kernel_activated | kernel_deprecated | breeding_complete
  | generation_complete | emergence_detected | population_updated

text \<open>
  \<^verbatim>\<open>Gene.value\<close> has type \<^verbatim>\<open>unknown\<close>. The model keeps the three primitive kinds the
  service inspects with \<^verbatim>\<open>typeof\<close> or serialises; arrays and objects as gene values
  are left out.
\<close>

datatype GeneValue = NumberValue real | BooleanValue bool | StringValue string

record Gene =
  gene_id :: string
  gene_name :: string
  gene_type :: GeneType
  gene_value :: GeneValue
  mutable :: bool
  expressionLevel :: real

record ExpressionModifier =
  targetGene :: string
  condition :: string
  modifier :: real

record Mutation =
  mutation_id :: string
  mutation_type :: MutationType
  target :: string
  magnitude :: real
  mutation_timestamp :: nat

text \<open>
  Gene objects are mutated in place (\<^verbatim>\<open>mutateGene\<close>) and shared by reference, so a
  genome holds the addresses of its genes in a gene store; the arrays themselves are
  never shared between two holders and are lists.
\<close>

record KernelGenome =
  coreGenes :: "nat list"
  regulatoryGenes :: "nat list"
  expressionModifiers :: "ExpressionModifier list"
  checksum :: string

record KernelLineage =
  generation :: nat
  parents :: "string list"
  ancestors :: "string list"
  breedingMethod :: BreedingMethod
  mutations :: "Mutation list"

record FitnessScores =
  overall :: real
  performance :: real
  efficiency :: real
  reliability :: real
  adaptability :: real
  innovation :: real
  evaluations :: nat
  lastEvaluated :: nat

record CognitiveKernel =
  kernel_id :: string
  kernel_name :: string
  version :: string
  kernel_type :: KernelType
  lineage :: KernelLineage
  genome :: KernelGenome
  fitness :: FitnessScores
  kernel_state :: KernelState
  created :: nat
  lastActivated :: nat

record PopulationStatistics =
  totalCreated :: nat
  activeCount :: nat
  archivedCount :: nat
  averageFitness :: real
  bestFitness :: real
  fitnessTrend :: "real list"
  diversityIndex :: real

text \<open>Kernel objects are mutated in place too; a population lists kernel addresses.\<close>

record KernelPopulation =
  population_id :: string
  population_name :: string
  population_generation :: nat
  kernels :: "nat list"
  statistics :: PopulationStatistics
  selectionPressure_of :: real
  mutationRate_of :: real
  capacity :: int

record BreedingRequest =
  request_parents :: "string list"
  request_method :: BreedingMethod
  request_mutationRate :: "real option"
  offspringCount :: nat

record BreedingResult =
  offspring :: "nat list"
  successRate :: real
  mutationsApplied :: nat
  novelGenes :: nat

record EvolutionConfig =
  generationInterval :: real
  populationCapacity :: real
  baseMutationRate :: real
  selectionPressure :: real
  elitismRate :: real
  crossoverRate :: real
  enableEmergence :: bool
  archiveThreshold :: real

record EmergenceEvent =
  emergence_id :: string
  emergence_timestamp :: nat
  emergence_type :: EmergenceType
  description :: string
  significance :: real

record OntogenesisState =
  populations :: "KernelPopulation list"
  archive :: "nat list"
  config :: EvolutionConfig
  globalGeneration :: nat
  totalKernelsCreated :: nat
  emergenceEvents :: "EmergenceEvent list"
  isEvolving :: bool
  lastEvolutionCycle :: nat

text \<open>\<^verbatim>\<open>Partial<FitnessScores>\<close>, as far as \<^verbatim>\<open>evaluateFitness\<close> reads it.\<close>

record PartialScores =
  given_performance :: "real option"
  given_efficiency :: "real option"
  given_reliability :: "real option"
  given_adaptability :: "real option"
  given_innovation :: "real option"

text \<open>\<^verbatim>\<open>Partial<KernelGenome>\<close>, as far as \<^verbatim>\<open>createKernel\<close> reads it.\<close>

record PartialGenome =
  given_coreGenes :: "nat list option"
  given_regulatoryGenes :: "nat list option"
  given_expressionModifiers :: "ExpressionModifier list option"

record KernelTemplate =
  template_name :: string
  template_type :: KernelType
  baseGenome :: PartialGenome

text \<open>The payload of an event, one shape per call of \<^verbatim>\<open>emitEvent\<close>.\<close>

datatype EventData =
  KernelData nat
  | KernelIdData string
  | BreedingData "string list" "string list" BreedingMethod
  | GenerationData nat "(string \<times> nat \<times> real) list"
  | EmergenceData EmergenceEvent
  | PopulationData string PopulationStatistics

record OntogenesisEvent =
  event_type :: OntogenesisEventType
  event_timestamp :: nat
  event_data :: EventData

text \<open>
  The host: \<^verbatim>\<open>Math.random()\<close> and \<^verbatim>\<open>Date.now()\<close> answer from two streams, each call
  taking the next entry; \<^verbatim>\<open>Number.prototype.toString\<close> in radix 10 (used by
  \<^verbatim>\<open>JSON.stringify\<close>) and in radix 36 are builtins of the host as well and are taken
  as given functions.
\<close>

record Host =
  randoms :: "nat \<Rightarrow> real"
  random_calls :: nat
  clock :: "nat \<Rightarrow> nat"
  clock_calls :: nat
  number_text :: "real \<Rightarrow> string"
  radix36_text :: "real \<Rightarrow> string"

text \<open>
  The service object with everything it reaches: its \<^verbatim>\<open>state\<close>, the interval timer,
  the two object stores, the host, and the log of the events handed to the listeners
  (listeners themselves are external; \<^verbatim>\<open>emitEvent\<close> catches what they throw).
\<close>

record World =
  engine :: OntogenesisState
  evolutionInterval :: bool
  kernel_heap :: "nat \<Rightarrow> CognitiveKernel"
  kernel_next :: nat
  gene_heap :: "nat \<Rightarrow> Gene"
  gene_next :: nat
  host :: Host
  emitted :: "OntogenesisEvent list"

datatype exn = TypeError

datatype 'a outcome = Value 'a | Exception exn

text \<open>
  A method of the service: it may not return (\<open>None\<close>, only \<^verbatim>\<open>gaussianRandom\<close>'s loops
  can cause that), throw, or return a value; in the last two cases the world it leaves
  behind is part of the answer.
\<close>

type_synonym 'a M = "World \<Rightarrow> ('a outcome \<times> World) option"

section \<open>Builtins\<close>

definition ret :: "'a \<Rightarrow> 'a M" where
  "ret x = (\<lambda>w. Some (Value x, w))"

definition throw :: "exn \<Rightarrow> 'a M" where
  "throw e = (\<lambda>w. Some (Exception e, w))"

definition bnd :: "'a M \<Rightarrow> ('a \<Rightarrow> 'b M) \<Rightarrow> 'b M" where
  "bnd m f = (\<lambda>w. case m w of
       None \<Rightarrow> None
     | Some (Value x, w') \<Rightarrow> f x w'
     | Some (Exception e, w') \<Rightarrow> Some (Exception e, w'))"

text \<open>What \<open>bnd\<close> does with the answer of its first method.\<close>

definition run_then :: "('a outcome \<times> World) option \<Rightarrow> ('a \<Rightarrow> 'b M) \<Rightarrow> ('b outcome \<times> World) option" where
  "run_then r f = (case r of
       None \<Rightarrow> None
     | Some (Value x, w') \<Rightarrow> f x w'
     | Some (Exception e, w') \<Rightarrow> Some (Exception e, w'))"

definition reading :: "(World \<Rightarrow> 'a) \<Rightarrow> 'a M" where
  "reading f = (\<lambda>w. Some (Value (f w), w))"

definition modify :: "(World \<Rightarrow> World) \<Rightarrow> unit M" where
  "modify f = (\<lambda>w. Some (Value (), f w))"

fun foldM :: "('a \<Rightarrow> 'b \<Rightarrow> 'b M) \<Rightarrow> 'a list \<Rightarrow> 'b \<Rightarrow> 'b M" where
  "foldM f [] acc = ret acc"
| "foldM f (x # xs) acc = bnd (f x acc) (foldM f xs)"

definition math_random :: "real M" where
  "math_random = (\<lambda>w. Some (Value (randoms (host w) (random_calls (host w))),
     w\<lparr>host := (host w)\<lparr>random_calls := random_calls (host w) + 1\<rparr>\<rparr>))"

definition date_now :: "nat M" where
  "date_now = (\<lambda>w. Some (Value (clock (host w) (clock_calls (host w))),
     w\<lparr>host := (host w)\<lparr>clock_calls := clock_calls (host w) + 1\<rparr>\<rparr>))"

text \<open>\<^verbatim>\<open>Array.prototype.slice(start, end)\<close> with its relative (negative) indices.\<close>

definition relative_index :: "int \<Rightarrow> nat \<Rightarrow> nat" where
  "relative_index i len = (if i < 0 then nat (max (int len + i) 0) else min (nat i) len)"

definition slice :: "int \<Rightarrow> int \<Rightarrow> 'a list \<Rightarrow> 'a list" where
  "slice start fin xs =
     (let k = relative_index start (length xs); e = relative_index fin (length xs)
      in take (e - k) (drop k xs))"

definition slice_from :: "int \<Rightarrow> 'a list \<Rightarrow> 'a list" where
  "slice_from start xs = drop (relative_index start (length xs)) xs"

text \<open>\<^verbatim>\<open>xs[i]\<close> for an integral index: \<open>None\<close> stands for \<^verbatim>\<open>undefined\<close>.\<close>

definition element_at :: "'a list \<Rightarrow> int \<Rightarrow> 'a option" where
  "element_at xs i = (if 0 \<le> i \<and> nat i < length xs then Some (xs ! nat i) else None)"

definition digit_char :: "nat \<Rightarrow> char" where
  "digit_char d = ''0123456789abcdefghijklmnopqrstuvwxyz'' ! d"

text \<open>\<^verbatim>\<open>String(n)\<close> and \<^verbatim>\<open>n.toString(16)\<close> for a non-negative integer.\<close>

fun decimal :: "nat \<Rightarrow> string" where
  "decimal n = (if n < 10 then [digit_char n] else decimal (n div 10) @ [digit_char (n mod 10)])"

fun hexadecimal :: "nat \<Rightarrow> string" where
  "hexadecimal n =
     (if n < 16 then [digit_char n] else hexadecimal (n div 16) @ [digit_char (n mod 16)])"

declare decimal.simps [simp del]
declare hexadecimal.simps [simp del]

text \<open>\<^verbatim>\<open>JSON.stringify\<close> of a string: the quoting of ECMAScript's QuoteJSONString.\<close>

definition json_char :: "char \<Rightarrow> string" where
  "json_char c =
     (if c = CHR 0x08 then [CHR 0x5C, CHR ''b'']
      else if c = CHR 0x09 then [CHR 0x5C, CHR ''t'']
      else if c = CHR 0x0A then [CHR 0x5C, CHR ''n'']
      else if c = CHR 0x0C then [CHR 0x5C, CHR ''f'']
      else if c = CHR 0x0D then [CHR 0x5C, CHR ''r'']
      else if c = CHR 0x22 then [CHR 0x5C, CHR 0x22]
      else if c = CHR 0x5C then [CHR 0x5C, CHR 0x5C]
      else if (of_char c :: nat) < 32
        then [CHR 0x5C, CHR ''u'', CHR ''0'', CHR ''0'',
              digit_char (of_char c div 16), digit_char (of_char c mod 16)]
      else [c])"

definition json_string :: "string \<Rightarrow> string" where
  "json_string s = [CHR 0x22] @ concat (map json_char s) @ [CHR 0x22]"

definition json_value :: "(real \<Rightarrow> string) \<Rightarrow> GeneValue \<Rightarrow> string" where
  "json_value num v = (case v of
       NumberValue x \<Rightarrow> num x
     | BooleanValue b \<Rightarrow> (if b then ''true'' else ''false'')
     | StringValue s \<Rightarrow> json_string s)"

fun comma_separated :: "string list \<Rightarrow> string" where
  "comma_separated [] = []"
| "comma_separated [x] = x"
| "comma_separated (x # y # ys) = x @ '','' @ comma_separated (y # ys)"

definition json_gene :: "(real \<Rightarrow> string) \<Rightarrow> string \<times> GeneValue \<Rightarrow> string" where
  "json_gene num g =
     ''{'' @ json_string ''id'' @ '':'' @ json_string (fst g) @ '','' @
     json_string ''value'' @ '':'' @ json_value num (snd g) @ ''}''"

definition json_genome ::
  "(real \<Rightarrow> string) \<Rightarrow> (string \<times> GeneValue) list \<Rightarrow> (string \<times> GeneValue) list \<Rightarrow> string" where
  "json_genome num core reg =
     ''{'' @ json_string ''core'' @ '':['' @ comma_separated (map (json_gene num) core) @ ''],'' @
     json_string ''reg'' @ '':['' @ comma_separated (map (json_gene num) reg) @ '']}''"

text \<open>
  The hash loop of \<^verbatim>\<open>calculateChecksum\<close>: \<^verbatim>\<open>hash = ((hash << 5) - hash) + char; hash = hash & hash\<close>
  keeps a signed 32-bit integer; the subtraction and the addition are exact in doubles
  and \<^verbatim>\<open>&\<close> reduces modulo \<open>2^32\<close> again, so the step is 32-bit word arithmetic.
\<close>

definition hash_step :: "32 word \<Rightarrow> char \<Rightarrow> 32 word" where
  "hash_step h c = (push_bit 5 h - h) + of_nat (of_char c)"

definition string_hash :: "string \<Rightarrow> 32 word" where
  "string_hash s = foldl hash_step 0 s"

definition checksum_of_text :: "string \<Rightarrow> string" where
  "checksum_of_text s = hexadecimal (nat \<bar>sint (string_hash s)\<bar>)"

definition gene_pairs :: "(nat \<Rightarrow> Gene) \<Rightarrow> nat list \<Rightarrow> (string \<times> GeneValue) list" where
  "gene_pairs gh refs = map (\<lambda>a. (gene_id (gh a), gene_value (gh a))) refs"

text \<open>
  \<^verbatim>\<open>calculateChecksum\<close> reads the genes of the genome in the gene store \<open>gh\<close> and prints
  numbers with the host's \<open>num\<close>.
\<close>

definition genome_checksum :: "(real \<Rightarrow> string) \<Rightarrow> (nat \<Rightarrow> Gene) \<Rightarrow> KernelGenome \<Rightarrow> string" where
  "genome_checksum num gh g =
     checksum_of_text (json_genome num
       (gene_pairs gh (coreGenes g)) (gene_pairs gh (regulatoryGenes g)))"

definition calculateChecksum :: "World \<Rightarrow> KernelGenome \<Rightarrow> string" where
  "calculateChecksum w g = genome_checksum (number_text (host w)) (gene_heap w) g"

section \<open>The service\<close>

definition type_text :: "KernelType \<Rightarrow> string" where
  "type_text t = (case t of
       inference \<Rightarrow> ''inference'' | reasoning \<Rightarrow> ''reasoning'' | memory \<Rightarrow> ''memory''
     | perception \<Rightarrow> ''perception'' | action \<Rightarrow> ''action'' | meta \<Rightarrow> ''meta''
     | integration \<Rightarrow> ''integration'' | specialized \<Rightarrow> ''specialized'')"

definition emitEvent :: "OntogenesisEventType \<Rightarrow> EventData \<Rightarrow> unit M" where
  "emitEvent ty d =
     bnd date_now (\<lambda>t.
     modify (\<lambda>w. w\<lparr>emitted := emitted w @
       [\<lparr>event_type = ty, event_timestamp = t, event_data = d\<rparr>]\<rparr>))"

definition generateKernelId :: "string M" where
  "generateKernelId =
     bnd date_now (\<lambda>t.
     bnd math_random (\<lambda>r.
     reading (\<lambda>w. ''kernel-'' @ decimal t @ ''-'' @ slice 2 8 (radix36_text (host w) r))))"

definition createInitialFitness :: FitnessScores where
  "createInitialFitness =
     \<lparr>overall = 0.5, performance = 0.5, efficiency = 0.5, reliability = 0.5,
      adaptability = 0.5, innovation = 0.5, evaluations = 0, lastEvaluated = 0\<rparr>"

definition calculateOverallFitness :: "FitnessScores \<Rightarrow> real" where
  "calculateOverallFitness f =
     performance f * 0.3 + efficiency f * 0.2 + reliability f * 0.2 +
     adaptability f * 0.15 + innovation f * 0.15"

definition find_by_id :: "World \<Rightarrow> nat list \<Rightarrow> string \<Rightarrow> nat option" where
  "find_by_id w refs i = List.find (\<lambda>a. kernel_id (kernel_heap w a) = i) refs"

fun find_in_populations :: "World \<Rightarrow> KernelPopulation list \<Rightarrow> string \<Rightarrow> nat option" where
  "find_in_populations w [] i = None"
| "find_in_populations w (p # ps) i =
     (case find_by_id w (kernels p) i of
        Some a \<Rightarrow> Some a
      | None \<Rightarrow> find_in_populations w ps i)"

definition findKernel :: "World \<Rightarrow> string \<Rightarrow> nat option" where
  "findKernel w i =
     (case find_in_populations w (populations (engine w)) i of
        Some a \<Rightarrow> Some a
      | None \<Rightarrow> find_by_id w (archive (engine w)) i)"

definition alloc_kernel :: "CognitiveKernel \<Rightarrow> nat M" where
  "alloc_kernel k = (\<lambda>w. Some (Value (kernel_next w),
     w\<lparr>kernel_heap := (kernel_heap w)(kernel_next w := k), kernel_next := kernel_next w + 1\<rparr>))"

definition alloc_gene :: "Gene \<Rightarrow> nat M" where
  "alloc_gene g = (\<lambda>w. Some (Value (gene_next w),
     w\<lparr>gene_heap := (gene_heap w)(gene_next w := g), gene_next := gene_next w + 1\<rparr>))"

definition set_gene_value :: "nat \<Rightarrow> GeneValue \<Rightarrow> unit M" where
  "set_gene_value a v =
     modify (\<lambda>w. w\<lparr>gene_heap := (gene_heap w)(a := (gene_heap w a)\<lparr>gene_value := v\<rparr>)\<rparr>)"

definition count_created :: "unit M" where
  "count_created =
     modify (\<lambda>w. w\<lparr>engine := (engine w)\<lparr>totalKernelsCreated := totalKernelsCreated (engine w) + 1\<rparr>\<rparr>)"

text \<open>\<^verbatim>\<open>{ ...g }\<close> and \<^verbatim>\<open>genes.map(g => ({ ...g }))\<close>: fresh gene objects.\<close>

definition copy_gene :: "nat \<Rightarrow> nat M" where
  "copy_gene a = bnd (reading (\<lambda>w. gene_heap w a)) alloc_gene"

definition copy_genes :: "nat list \<Rightarrow> nat list M" where
  "copy_genes refs = foldM (\<lambda>a acc. bnd (copy_gene a) (\<lambda>b. ret (acc @ [b]))) refs []"

definition or_empty :: "'a list option \<Rightarrow> 'a list" where
  "or_empty xs = (case xs of None \<Rightarrow> [] | Some ys \<Rightarrow> ys)"

text \<open>
  \<^verbatim>\<open>createKernel\<close>: the spread \<^verbatim>\<open>[...(template.baseGenome.coreGenes || [])]\<close> makes a new
  array of the same gene objects, so the new genome lists the template's addresses.
\<close>

definition template_genome :: "KernelTemplate \<Rightarrow> PartialGenome option \<Rightarrow> KernelGenome" where
  "template_genome template customGenome =
     (let g = \<lparr>coreGenes = or_empty (given_coreGenes (baseGenome template)),
               regulatoryGenes = or_empty (given_regulatoryGenes (baseGenome template)),
               expressionModifiers = or_empty (given_expressionModifiers (baseGenome template)),
               checksum = []\<rparr>
      in case customGenome of
           None \<Rightarrow> g
         | Some c \<Rightarrow>
             (let g1 = (case given_coreGenes c of
                          None \<Rightarrow> g
                        | Some cs \<Rightarrow> g\<lparr>coreGenes := coreGenes g @ cs\<rparr>)
              in case given_regulatoryGenes c of
                   None \<Rightarrow> g1
                 | Some rs \<Rightarrow> g1\<lparr>regulatoryGenes := regulatoryGenes g1 @ rs\<rparr>))"

definition founder_lineage :: KernelLineage where
  "founder_lineage =
     \<lparr>generation = 0, parents = [], ancestors = [], breedingMethod = synthetic, mutations = []\<rparr>"

definition founder_kernel :: "KernelTemplate \<Rightarrow> string \<Rightarrow> KernelGenome \<Rightarrow> nat \<Rightarrow> CognitiveKernel" where
  "founder_kernel template i g t =
     \<lparr>kernel_id = i,
      kernel_name = template_name template @ ''-'' @ slice_from (- 4) i,
      version = ''1.0.0'',
      kernel_type = template_type template,
      lineage = founder_lineage,
      genome = g,
      fitness = createInitialFitness,
      kernel_state = DORMANT,
      created = t,
      lastActivated = 0\<rparr>"

definition createKernel :: "KernelTemplate \<Rightarrow> PartialGenome option \<Rightarrow> nat M" where
  "createKernel template customGenome =
     bnd generateKernelId (\<lambda>i.
     bnd (reading (\<lambda>w. let g = template_genome template customGenome
                        in g\<lparr>checksum := calculateChecksum w g\<rparr>)) (\<lambda>g.
     bnd date_now (\<lambda>t.
     bnd (alloc_kernel (founder_kernel template i g t)) (\<lambda>a.
     bnd count_created (\<lambda>_.
     bnd (emitEvent kernel_created (KernelData a)) (\<lambda>_.
     ret a))))))"

definition asexualReproduction :: "KernelGenome \<Rightarrow> KernelGenome M" where
  "asexualReproduction parentGenome =
     bnd (copy_genes (coreGenes parentGenome)) (\<lambda>c.
     bnd (copy_genes (regulatoryGenes parentGenome)) (\<lambda>r.
     ret \<lparr>coreGenes = c, regulatoryGenes = r,
          expressionModifiers = expressionModifiers parentGenome, checksum = []\<rparr>))"

definition crossover_genomes :: "KernelGenome \<Rightarrow> KernelGenome \<Rightarrow> KernelGenome M" where
  "crossover_genomes genome1 genome2 =
     bnd math_random (\<lambda>r.
     let crossoverPoint = \<lfloor>r * real (length (coreGenes genome1))\<rfloor> in
     bnd (copy_genes (slice 0 crossoverPoint (coreGenes genome1))) (\<lambda>c1.
     bnd (copy_genes (slice_from crossoverPoint (coreGenes genome2))) (\<lambda>c2.
     bnd math_random (\<lambda>r2.
     bnd (copy_genes (if r2 < 0.5 then regulatoryGenes genome1 else regulatoryGenes genome2)) (\<lambda>rg.
     ret \<lparr>coreGenes = c1 @ c2, regulatoryGenes = rg,
          expressionModifiers =
            slice 0 (int (length (expressionModifiers genome1) div 2)) (expressionModifiers genome1) @
            slice_from (int (length (expressionModifiers genome2) div 2)) (expressionModifiers genome2),
          checksum = []\<rparr>)))))"

definition multiParentBreeding :: "KernelGenome list \<Rightarrow> KernelGenome M" where
  "multiParentBreeding genomes =
     bnd (case genomes of
            [] \<Rightarrow> ret []
          | g0 # _ \<Rightarrow>
              foldM (\<lambda>i acc.
                  bnd math_random (\<lambda>r.
                  case element_at genomes \<lfloor>r * real (length genomes)\<rfloor> of
                    None \<Rightarrow> throw TypeError
                  | Some g \<Rightarrow>
                      (case element_at (coreGenes g) (int i) of
                         None \<Rightarrow> ret acc
                       | Some a \<Rightarrow> bnd (copy_gene a) (\<lambda>b. ret (acc @ [b])))))
                [0..<length (coreGenes g0)] []) (\<lambda>core.
     bnd math_random (\<lambda>r.
     bnd (case element_at genomes \<lfloor>r * real (length genomes)\<rfloor> of
            None \<Rightarrow> ret []
          | Some g \<Rightarrow> copy_genes (regulatoryGenes g)) (\<lambda>rg.
     ret \<lparr>coreGenes = core, regulatoryGenes = rg, expressionModifiers = [], checksum = []\<rparr>)))"

text \<open>\<^verbatim>\<open>let u = 0; while (u === 0) u = Math.random();\<close> may draw zeros for ever.\<close>

partial_function (option) nonzero_random :: "World \<Rightarrow> (real outcome \<times> World) option" where
  "nonzero_random w =
     (if randoms (host w) (random_calls (host w)) = 0
      then nonzero_random (w\<lparr>host := (host w)\<lparr>random_calls := random_calls (host w) + 1\<rparr>\<rparr>)
      else Some (Value (randoms (host w) (random_calls (host w))),
                 w\<lparr>host := (host w)\<lparr>random_calls := random_calls (host w) + 1\<rparr>\<rparr>))"

definition gaussianRandom :: "real M" where
  "gaussianRandom =
     bnd nonzero_random (\<lambda>u.
     bnd nonzero_random (\<lambda>v.
     ret (sqrt (- 2 * ln u) * cos (2 * pi * v))))"

definition is_number :: "GeneValue \<Rightarrow> bool" where
  "is_number v = (case v of NumberValue _ \<Rightarrow> True | _ \<Rightarrow> False)"

definition is_boolean :: "GeneValue \<Rightarrow> bool" where
  "is_boolean v = (case v of BooleanValue _ \<Rightarrow> True | _ \<Rightarrow> False)"

definition mutateGene :: "nat \<Rightarrow> Mutation option M" where
  "mutateGene a =
     bnd (reading (\<lambda>w. gene_heap w a)) (\<lambda>gene.
     bnd (case (gene_type gene, gene_value gene) of
            (parameter_gene, NumberValue x) \<Rightarrow>
              bnd gaussianRandom (\<lambda>z.
              let delta = z * 0.1 in
              bnd (set_gene_value a (NumberValue (max 0 (min 1 (x + delta))))) (\<lambda>_.
              ret \<bar>delta\<bar>))
          | (switch_gene, BooleanValue b) \<Rightarrow>
              bnd (set_gene_value a (BooleanValue (\<not> b))) (\<lambda>_. ret 1)
          | _ \<Rightarrow> ret 0) (\<lambda>m.
     if m > 0
     then bnd date_now (\<lambda>t1.
          bnd math_random (\<lambda>r.
          bnd (reading (\<lambda>w. radix36_text (host w) r)) (\<lambda>s.
          bnd date_now (\<lambda>t2.
          ret (Some \<lparr>mutation_id = ''mut-'' @ decimal t1 @ ''-'' @ slice 2 6 s,
                     mutation_type = parameter_mutation,
                     target = gene_id gene,
                     magnitude = m,
                     mutation_timestamp = t2\<rparr>)))))
     else ret None))"

definition novel_gene :: "nat \<Rightarrow> real \<Rightarrow> Gene" where
  "novel_gene t v =
     \<lparr>gene_id = ''gene-'' @ decimal t, gene_name = ''Novel Gene'', gene_type = parameter_gene,
      gene_value = NumberValue v, mutable = True, expressionLevel = 0.5\<rparr>"

definition applyMutations :: "KernelGenome \<Rightarrow> real \<Rightarrow> (KernelGenome \<times> Mutation list) M" where
  "applyMutations g mutationRate =
     bnd (foldM (\<lambda>a ms.
            bnd (reading (\<lambda>w. mutable (gene_heap w a))) (\<lambda>mu.
            if \<not> mu then ret ms
            else bnd math_random (\<lambda>r.
                 if r < mutationRate
                 then bnd (mutateGene a) (\<lambda>mo.
                      case mo of None \<Rightarrow> ret ms | Some m \<Rightarrow> ret (ms @ [m]))
                 else ret ms)))
          (coreGenes g) []) (\<lambda>ms.
     bnd math_random (\<lambda>r.
     bnd (if r < mutationRate * 0.1
          then bnd date_now (\<lambda>t.
               bnd math_random (\<lambda>v.
               bnd (alloc_gene (novel_gene t v)) (\<lambda>b.
               bnd date_now (\<lambda>t2.
               bnd date_now (\<lambda>t3.
               ret (g\<lparr>coreGenes := coreGenes g @ [b]\<rparr>,
                    ms @ [\<lparr>mutation_id = ''mut-'' @ decimal t2, mutation_type = insertion,
                           target = ''gene-'' @ decimal t, magnitude = 1,
                           mutation_timestamp = t3\<rparr>]))))))
          else ret (g, ms)) (\<lambda>(g1, ms1).
     bnd (reading (\<lambda>w. g1\<lparr>checksum := calculateChecksum w g1\<rparr>)) (\<lambda>g2.
     ret (g2, ms1)))))"

text \<open>A JavaScript \<^verbatim>\<open>Set\<close> of strings keeps the order of first insertion.\<close>

definition set_add :: "string list \<Rightarrow> string \<Rightarrow> string list" where
  "set_add xs x = (if x \<in> set xs then xs else xs @ [x])"

definition buildAncestorChain :: "CognitiveKernel list \<Rightarrow> string list" where
  "buildAncestorChain ps =
     slice 0 5 (foldl (\<lambda>acc p. foldl set_add (set_add acc (kernel_id p))
                                  (slice 0 4 (ancestors (lineage p)))) [] ps)"

definition no_offspring :: BreedingResult where
  "no_offspring = \<lparr>offspring = [], successRate = 0, mutationsApplied = 0, novelGenes = 0\<rparr>"

text \<open>
  One turn of the loop in \<^verbatim>\<open>breed\<close>, in two parts: the child's genome (the \<^verbatim>\<open>switch\<close> on
  the method, then the mutations), and the child itself. \<open>first\<close> is \<^verbatim>\<open>parents[0]\<close>,
  \<open>pks\<close> are all resolved parents; the accumulator holds \<^verbatim>\<open>offspring\<close>,
  \<^verbatim>\<open>totalMutations\<close> and \<^verbatim>\<open>novelGenes\<close>.
\<close>

definition child_genome ::
  "BreedingRequest \<Rightarrow> CognitiveKernel \<Rightarrow> CognitiveKernel list \<Rightarrow> (KernelGenome \<times> Mutation list) M" where
  "child_genome request first pks =
     bnd (case request_method request of
            asexual \<Rightarrow> asexualReproduction (genome first)
          | crossover \<Rightarrow>
              crossover_genomes (genome first)
                (case element_at pks 1 of Some second \<Rightarrow> genome second | None \<Rightarrow> genome first)
          | multi_parent \<Rightarrow> multiParentBreeding (map genome pks)
          | _ \<Rightarrow> asexualReproduction (genome first)) (\<lambda>childGenome.
     bnd (reading (\<lambda>w. case request_mutationRate request of
                         Some r \<Rightarrow> r
                       | None \<Rightarrow> baseMutationRate (config (engine w)))) (\<lambda>rate.
     applyMutations childGenome rate))"

definition child_kernel ::
  "BreedingRequest \<Rightarrow> CognitiveKernel \<Rightarrow> CognitiveKernel list \<Rightarrow> nat \<Rightarrow> KernelGenome \<Rightarrow>
   Mutation list \<Rightarrow> string \<Rightarrow> nat \<Rightarrow> nat \<Rightarrow> CognitiveKernel" where
  "child_kernel request first pks i mutatedGenome ms cid gg t =
     \<lparr>kernel_id = cid,
      kernel_name = type_text (kernel_type first) @ ''-gen'' @ decimal (gg + 1) @ ''-'' @ decimal i,
      version = ''1.0.0'',
      kernel_type = kernel_type first,
      lineage = \<lparr>generation = foldr max (map (\<lambda>p. generation (lineage p)) pks) 0 + 1,
                 parents = map kernel_id pks,
                 ancestors = buildAncestorChain pks,
                 breedingMethod = request_method request,
                 mutations = ms\<rparr>,
      genome = mutatedGenome,
      fitness = createInitialFitness,
      kernel_state = DORMANT,
      created = t,
      lastActivated = 0\<rparr>"

definition breed_child ::
  "BreedingRequest \<Rightarrow> nat \<Rightarrow> nat list \<Rightarrow> nat \<Rightarrow> nat list \<times> nat \<times> nat \<Rightarrow> (nat list \<times> nat \<times> nat) M" where
  "breed_child request p0 ps i acc =
     bnd (reading (\<lambda>w. (kernel_heap w p0, map (kernel_heap w) ps))) (\<lambda>(first, pks).
     bnd (child_genome request first pks) (\<lambda>(mutatedGenome, ms).
     bnd generateKernelId (\<lambda>cid.
     bnd (reading (\<lambda>w. globalGeneration (engine w))) (\<lambda>gg.
     bnd date_now (\<lambda>t.
     bnd (alloc_kernel (child_kernel request first pks i mutatedGenome ms cid gg t)) (\<lambda>child.
     bnd count_created (\<lambda>_.
     ret (fst acc @ [child], fst (snd acc) + length ms,
          snd (snd acc) + length (filter (\<lambda>m. mutation_type m = insertion) ms)))))))))"

text \<open>
  \<^verbatim>\<open>breed\<close>. With \<^verbatim>\<open>offspringCount\<close> 0 and a resolved parent JavaScript's
  \<^verbatim>\<open>successRate\<close> is NaN (0 / 0); the model's division gives 0 there.
\<close>

definition breed :: "BreedingRequest \<Rightarrow> BreedingResult M" where
  "breed request =
     bnd (reading (\<lambda>w. List.map_filter (findKernel w) (request_parents request))) (\<lambda>ps.
     case ps of
       [] \<Rightarrow> ret no_offspring
     | p0 # _ \<Rightarrow>
         bnd (foldM (breed_child request p0 ps) [0..<offspringCount request] ([], 0, 0)) (\<lambda>acc.
         bnd (reading (\<lambda>w. BreedingData (map (\<lambda>a. kernel_id (kernel_heap w a)) ps)
                              (map (\<lambda>a. kernel_id (kernel_heap w a)) (fst acc))
                              (request_method request))) (\<lambda>d.
         bnd (emitEvent breeding_complete d) (\<lambda>_.
         ret \<lparr>offspring = fst acc,
              successRate = real (length (fst acc)) / real (offspringCount request),
              mutationsApplied = fst (snd acc),
              novelGenes = snd (snd acc)\<rparr>))))"

definition update_kernel :: "nat \<Rightarrow> (CognitiveKernel \<Rightarrow> CognitiveKernel) \<Rightarrow> World \<Rightarrow> World" where
  "update_kernel a f w = w\<lparr>kernel_heap := (kernel_heap w)(a := f (kernel_heap w a))\<rparr>"

text \<open>
  \<^verbatim>\<open>evaluateFitness\<close>: \<open>scored\<close> is the fitness object after the five conditional
  assignments, the recomputation of \<^verbatim>\<open>overall\<close> and \<^verbatim>\<open>evaluations++\<close>.
\<close>

definition scored :: "PartialScores \<Rightarrow> FitnessScores \<Rightarrow> FitnessScores" where
  "scored scores f =
     (let f1 = (case given_performance scores of None \<Rightarrow> f | Some x \<Rightarrow> f\<lparr>performance := x\<rparr>);
          f2 = (case given_efficiency scores of None \<Rightarrow> f1 | Some x \<Rightarrow> f1\<lparr>efficiency := x\<rparr>);
          f3 = (case given_reliability scores of None \<Rightarrow> f2 | Some x \<Rightarrow> f2\<lparr>reliability := x\<rparr>);
          f4 = (case given_adaptability scores of None \<Rightarrow> f3 | Some x \<Rightarrow> f3\<lparr>adaptability := x\<rparr>);
          f5 = (case given_innovation scores of None \<Rightarrow> f4 | Some x \<Rightarrow> f4\<lparr>innovation := x\<rparr>)
      in f5\<lparr>overall := calculateOverallFitness f5, evaluations := evaluations f5 + 1\<rparr>)"

definition evaluateFitness :: "string \<Rightarrow> PartialScores \<Rightarrow> FitnessScores option M" where
  "evaluateFitness kernelId scores =
     bnd (reading (\<lambda>w. findKernel w kernelId)) (\<lambda>found.
     case found of
       None \<Rightarrow> ret None
     | Some a \<Rightarrow>
         bnd (modify (update_kernel a (\<lambda>k. k\<lparr>fitness := scored scores (fitness k)\<rparr>))) (\<lambda>_.
         bnd date_now (\<lambda>t.
         bnd (modify (update_kernel a (\<lambda>k. k\<lparr>fitness := (fitness k)\<lparr>lastEvaluated := t\<rparr>\<rparr>))) (\<lambda>_.
         reading (\<lambda>w. Some (fitness (kernel_heap w a)))))))"

definition activateKernel :: "string \<Rightarrow> bool M" where
  "activateKernel kernelId =
     bnd (reading (\<lambda>w. findKernel w kernelId)) (\<lambda>found.
     case found of
       None \<Rightarrow> ret False
     | Some a \<Rightarrow>
         bnd (reading (\<lambda>w. kernel_state (kernel_heap w a))) (\<lambda>st.
         if st = DEPRECATED then ret False
         else bnd (modify (update_kernel a (\<lambda>k. k\<lparr>kernel_state := ACTIVE\<rparr>))) (\<lambda>_.
              bnd date_now (\<lambda>t.
              bnd (modify (update_kernel a (\<lambda>k. k\<lparr>lastActivated := t\<rparr>))) (\<lambda>_.
              bnd (emitEvent kernel_activated (KernelIdData kernelId)) (\<lambda>_.
              ret True))))))"

definition deprecateKernel :: "string \<Rightarrow> bool M" where
  "deprecateKernel kernelId =
     bnd (reading (\<lambda>w. findKernel w kernelId)) (\<lambda>found.
     case found of
       None \<Rightarrow> ret False
     | Some a \<Rightarrow>
         bnd (modify (update_kernel a (\<lambda>k. k\<lparr>kernel_state := DEPRECATED\<rparr>))) (\<lambda>_.
         bnd (emitEvent kernel_deprecated (KernelIdData kernelId)) (\<lambda>_.
         ret True)))"

text \<open>
  The methods of the evolution cycle work on one population object of
  \<^verbatim>\<open>this.state.populations\<close>; the model names it by its index \<open>i\<close> in that array.
\<close>

definition update_population ::
  "nat \<Rightarrow> (KernelPopulation \<Rightarrow> KernelPopulation) \<Rightarrow> World \<Rightarrow> World" where
  "update_population i f w =
     w\<lparr>engine := (engine w)\<lparr>populations :=
          (populations (engine w))[i := f (populations (engine w) ! i)]\<rparr>\<rparr>"

definition below_threshold :: "World \<Rightarrow> nat \<Rightarrow> bool" where
  "below_threshold w a =
     (overall (fitness (kernel_heap w a)) < archiveThreshold (config (engine w)) \<and>
      evaluations (fitness (kernel_heap w a)) > 0)"

text \<open>
  \<^verbatim>\<open>performSelection\<close>: a stable sort, best first (\<^verbatim>\<open>b.fitness.overall - a.fitness.overall\<close>),
  gives \<open>ranked\<close>; the kernels under the threshold, \<open>toArchive\<close>, are marked and pushed to
  the archive one by one, and the population keeps the kernels whose state is not
  ARCHIVED.
\<close>

definition ranked :: "World \<Rightarrow> nat \<Rightarrow> nat list" where
  "ranked w i =
     sort_key (\<lambda>a. - overall (fitness (kernel_heap w a))) (kernels (populations (engine w) ! i))"

definition toArchive :: "World \<Rightarrow> nat \<Rightarrow> nat list" where
  "toArchive w i = filter (below_threshold w) (ranked w i)"

definition performSelection :: "nat \<Rightarrow> World \<Rightarrow> World" where
  "performSelection i w =
     (let w1 = fold (\<lambda>a. update_kernel a (\<lambda>k. k\<lparr>kernel_state := ARCHIVED\<rparr>)) (toArchive w i) w;
          w2 = w1\<lparr>engine := (engine w1)\<lparr>archive := archive (engine w1) @ toArchive w i\<rparr>\<rparr>;
          w3 = update_population i (\<lambda>p. p\<lparr>statistics := (statistics p)
                 \<lparr>archivedCount := archivedCount (statistics p) + length (toArchive w i)\<rparr>\<rparr>) w2
      in update_population i
           (\<lambda>p. p\<lparr>kernels := filter (\<lambda>a. kernel_state (kernel_heap w3 a) \<noteq> ARCHIVED) (ranked w i)\<rparr>) w3)"

text \<open>\<^verbatim>\<open>elite[Math.floor(Math.random() * elite.length)].id\<close>: reading \<^verbatim>\<open>id\<close> of \<^verbatim>\<open>undefined\<close> throws.\<close>

definition pick_elite :: "nat list \<Rightarrow> string M" where
  "pick_elite elite =
     bnd math_random (\<lambda>r.
     case element_at elite \<lfloor>r * real (length elite)\<rfloor> of
       None \<Rightarrow> throw TypeError
     | Some a \<Rightarrow> reading (\<lambda>w. kernel_id (kernel_heap w a)))"

definition choose_method :: "BreedingMethod M" where
  "choose_method =
     bnd math_random (\<lambda>r.
     reading (\<lambda>w. if r < crossoverRate (config (engine w)) then crossover else asexual))"

definition choose_parents :: "BreedingMethod \<Rightarrow> nat list \<Rightarrow> string list M" where
  "choose_parents method elite =
     (if method = crossover \<and> length elite \<ge> 2
      then bnd (pick_elite elite) (\<lambda>a. bnd (pick_elite elite) (\<lambda>b. ret [a, b]))
      else bnd (pick_elite elite) (\<lambda>a. ret [a]))"

definition breeding_slot :: "nat \<Rightarrow> nat list \<Rightarrow> unit M" where
  "breeding_slot i elite =
     bnd choose_method (\<lambda>method.
     bnd (choose_parents method elite) (\<lambda>ps.
     bnd (breed \<lparr>request_parents = ps, request_method = method,
                 request_mutationRate = None, offspringCount = 1\<rparr>) (\<lambda>result.
     case offspring result of
       [] \<Rightarrow> ret ()
     | child # _ \<Rightarrow>
         modify (update_population i (\<lambda>p. p\<lparr>kernels := kernels p @ [child],
           statistics := (statistics p)\<lparr>totalCreated := totalCreated (statistics p) + 1\<rparr>\<rparr>)))))"

definition elite_of :: "World \<Rightarrow> nat \<Rightarrow> nat list" where
  "elite_of w i =
     (let ks = kernels (populations (engine w) ! i)
      in slice 0 \<lceil>real (length ks) * elitismRate (config (engine w))\<rceil> ks)"

definition newKernelsNeeded :: "World \<Rightarrow> nat \<Rightarrow> nat" where
  "newKernelsNeeded w i =
     (let p = populations (engine w) ! i
      in nat (max 0 (capacity p - int (length (kernels p)))))"

definition performBreeding :: "nat \<Rightarrow> unit M" where
  "performBreeding i =
     bnd (reading (\<lambda>w. (elite_of w i, newKernelsNeeded w i))) (\<lambda>(elite, needed).
     if needed = 0 then ret ()
     else foldM (\<lambda>_ _. breeding_slot i elite) [0..<needed] ())"

fun maximum :: "real list \<Rightarrow> real" where
  "maximum [] = 0"
| "maximum (x # xs) = fold max xs x"

text \<open>
  \<^verbatim>\<open>updatePopulationStatistics\<close>. \<^verbatim>\<open>Math.max(...[])\<close> is never reached: the empty
  population returns early.
\<close>

definition refreshed_statistics :: "World \<Rightarrow> nat list \<Rightarrow> PopulationStatistics \<Rightarrow> PopulationStatistics" where
  "refreshed_statistics w ks st =
     (let totalFitness = foldl (\<lambda>sum a. sum + overall (fitness (kernel_heap w a))) 0 ks;
          avg = totalFitness / real (length ks);
          best = maximum (map (\<lambda>a. overall (fitness (kernel_heap w a))) ks);
          pushed = fitnessTrend st @ [avg];
          trend = (if length pushed > 20 then slice_from (- 20) pushed else pushed);
          uniqueGenomes = remdups (map (\<lambda>a. checksum (genome (kernel_heap w a))) ks)
      in st\<lparr>averageFitness := avg, bestFitness := best, fitnessTrend := trend,
            diversityIndex := real (length uniqueGenomes) / real (length ks),
            activeCount := length (filter (\<lambda>a. kernel_state (kernel_heap w a) = ACTIVE) ks)\<rparr>)"

definition updatePopulationStatistics :: "nat \<Rightarrow> unit M" where
  "updatePopulationStatistics i =
     bnd (reading (\<lambda>w. kernels (populations (engine w) ! i))) (\<lambda>ks.
     if length ks = 0
     then modify (update_population i (\<lambda>p. p\<lparr>statistics := (statistics p)
            \<lparr>averageFitness := 0, bestFitness := 0\<rparr>\<rparr>))
     else bnd (modify (\<lambda>w. update_population i
                 (\<lambda>p. p\<lparr>statistics := refreshed_statistics w ks (statistics p)\<rparr>) w)) (\<lambda>_.
          bnd (reading (\<lambda>w. PopulationData (population_id (populations (engine w) ! i))
                                (statistics (populations (engine w) ! i)))) (\<lambda>d.
          emitEvent population_updated d)))"

definition average :: "real list \<Rightarrow> real" where
  "average xs = foldl (+) 0 xs / real (length xs)"

text \<open>
  \<^verbatim>\<open>checkForEmergence\<close>, one population. With \<^verbatim>\<open>olderAvg\<close> 0 JavaScript's significance is
  \<^verbatim>\<open>Infinity\<close>; the model's division gives 0 there.
\<close>

definition check_population :: "nat \<Rightarrow> unit M" where
  "check_population i =
     bnd (reading (\<lambda>w. populations (engine w) ! i)) (\<lambda>p.
     let trend = fitnessTrend (statistics p) in
     if length trend \<ge> 5
     then (let recent = slice_from (- 5) trend; older = slice (- 10) (- 5) trend in
           if length older > 0
           then (let recentAvg = average recent; olderAvg = average older in
                 if recentAvg > olderAvg * 1.2
                 then bnd date_now (\<lambda>t1.
                      bnd date_now (\<lambda>t2.
                      let event = \<lparr>emergence_id = ''emerge-'' @ decimal t1,
                                   emergence_timestamp = t2,
                                   emergence_type = capability,
                                   description = ''Significant capability improvement in '' @
                                     population_name p @ '' population'',
                                   significance = (recentAvg - olderAvg) / olderAvg\<rparr> in
                      bnd (modify (\<lambda>w. w\<lparr>engine := (engine w)
                             \<lparr>emergenceEvents := emergenceEvents (engine w) @ [event]\<rparr>\<rparr>)) (\<lambda>_.
                      emitEvent emergence_detected (EmergenceData event))))
                 else ret ())
           else ret ())
     else ret ())"

definition checkForEmergence :: "unit M" where
  "checkForEmergence =
     bnd (reading (\<lambda>w. length (populations (engine w)))) (\<lambda>n.
     foldM (\<lambda>i _. check_population i) [0..<n] ())"

definition cycle_population :: "nat \<Rightarrow> unit M" where
  "cycle_population i =
     bnd (modify (performSelection i)) (\<lambda>_.
     bnd (performBreeding i) (\<lambda>_.
     bnd (updatePopulationStatistics i) (\<lambda>_.
     modify (update_population i
       (\<lambda>p. p\<lparr>population_generation := population_generation p + 1\<rparr>)))))"

text \<open>\<^verbatim>\<open>evolutionCycle\<close>: the loop over the populations, then the rest of the method.\<close>

definition finish_cycle :: "unit M" where
  "finish_cycle =
     bnd (reading (\<lambda>w. enableEmergence (config (engine w)))) (\<lambda>e.
     bnd (if e then checkForEmergence else ret ()) (\<lambda>_.
     bnd (modify (\<lambda>w. w\<lparr>engine := (engine w)\<lparr>globalGeneration := globalGeneration (engine w) + 1\<rparr>\<rparr>)) (\<lambda>_.
     bnd date_now (\<lambda>t.
     bnd (modify (\<lambda>w. w\<lparr>engine := (engine w)\<lparr>lastEvolutionCycle := t\<rparr>\<rparr>)) (\<lambda>_.
     bnd (reading (\<lambda>w. GenerationData (globalGeneration (engine w))
            (map (\<lambda>p. (population_name p, length (kernels p), averageFitness (statistics p)))
               (populations (engine w))))) (\<lambda>d.
     emitEvent generation_complete d))))))"

definition evolutionCycle :: "unit M" where
  "evolutionCycle =
     bnd (reading (\<lambda>w. length (populations (engine w)))) (\<lambda>n.
     bnd (foldM (\<lambda>i _. cycle_population i) [0..<n] ()) (\<lambda>_.
     finish_cycle))"

text \<open>
  \<^verbatim>\<open>KERNEL_TEMPLATES\<close>: its twelve gene objects are made when the module loads and take
  the first twelve addresses of the gene store.
\<close>

definition template_gene :: "string \<Rightarrow> string \<Rightarrow> real \<Rightarrow> Gene" where
  "template_gene i n v =
     \<lparr>gene_id = i, gene_name = n, gene_type = parameter_gene, gene_value = NumberValue v,
      mutable = True, expressionLevel = 1\<rparr>"

definition template_genes :: "Gene list" where
  "template_genes =
     [template_gene ''temperature'' ''Temperature'' 0.7,
      template_gene ''maxTokens'' ''Max Tokens'' 2048,
      template_gene ''topP'' ''Top P'' 0.9,
      template_gene ''depth'' ''Reasoning Depth'' 3,
      template_gene ''breadth'' ''Exploration Breadth'' 5,
      template_gene ''rigor'' ''Logical Rigor'' 0.8,
      template_gene ''capacity'' ''Capacity'' 7,
      template_gene ''decay'' ''Decay Rate'' 0.1,
      template_gene ''consolidation'' ''Consolidation Rate'' 0.3,
      template_gene ''introspectionDepth'' ''Introspection Depth'' 2,
      template_gene ''selfAwareness'' ''Self-Awareness Level'' 0.5,
      template_gene ''adaptability'' ''Adaptability'' 0.6]"

definition kernel_template :: "string \<Rightarrow> KernelType \<Rightarrow> nat list \<Rightarrow> KernelTemplate" where
  "kernel_template n t core =
     \<lparr>template_name = n, template_type = t,
      baseGenome = \<lparr>given_coreGenes = Some core, given_regulatoryGenes = Some [],
                    given_expressionModifiers = Some []\<rparr>\<rparr>"

definition KERNEL_TEMPLATES :: "KernelTemplate list" where
  "KERNEL_TEMPLATES =
     [kernel_template ''Basic Inference'' inference [0, 1, 2],
      kernel_template ''Analytical Reasoning'' reasoning [3, 4, 5],
      kernel_template ''Working Memory'' memory [6, 7, 8],
      kernel_template ''Meta-Cognitive Monitor'' meta [9, 10, 11]]"

definition empty_statistics :: PopulationStatistics where
  "empty_statistics =
     \<lparr>totalCreated = 0, activeCount = 0, archivedCount = 0, averageFitness = 0,
      bestFitness = 0, fitnessTrend = [], diversityIndex = 0\<rparr>"

definition initialize_population :: "KernelType \<Rightarrow> unit M" where
  "initialize_population ty =
     bnd (reading (\<lambda>w. \<lparr>population_id = ''pop-'' @ type_text ty,
                         population_name = type_text ty,
                         population_generation = 0,
                         kernels = [],
                         statistics = empty_statistics,
                         selectionPressure_of = selectionPressure (config (engine w)),
                         mutationRate_of = baseMutationRate (config (engine w)),
                         capacity = \<lfloor>populationCapacity (config (engine w)) / 4\<rfloor>\<rparr>)) (\<lambda>p.
     bnd (case List.find (\<lambda>t. template_type t = ty) KERNEL_TEMPLATES of
            None \<Rightarrow> ret []
          | Some template \<Rightarrow>
              foldM (\<lambda>_ ks. bnd (createKernel template None) (\<lambda>a. ret (ks @ [a]))) [0..<5] []) (\<lambda>ks.
     modify (\<lambda>w. w\<lparr>engine := (engine w)\<lparr>populations := populations (engine w) @
       [p\<lparr>kernels := ks, statistics := (statistics p)\<lparr>totalCreated := length ks\<rparr>\<rparr>]\<rparr>\<rparr>)))"

definition initializePopulations :: "unit M" where
  "initializePopulations =
     foldM (\<lambda>ty _. initialize_population ty) [inference, reasoning, memory, meta] ()"

definition startEvolution :: "unit M" where
  "startEvolution =
     bnd (reading (\<lambda>w. isEvolving (engine w))) (\<lambda>running.
     if running then ret ()
     else bnd (modify (\<lambda>w. w\<lparr>engine := (engine w)\<lparr>isEvolving := True\<rparr>\<rparr>)) (\<lambda>_.
          bnd (reading (\<lambda>w. length (populations (engine w)))) (\<lambda>n.
          bnd (if n = 0 then initializePopulations else ret ()) (\<lambda>_.
          modify (\<lambda>w. w\<lparr>evolutionInterval := True\<rparr>)))))"

definition stopEvolution :: "unit M" where
  "stopEvolution =
     bnd (modify (\<lambda>w. w\<lparr>evolutionInterval := False\<rparr>)) (\<lambda>_.
     modify (\<lambda>w. w\<lparr>engine := (engine w)\<lparr>isEvolving := False\<rparr>\<rparr>))"

section \<open>Runs of the service\<close>

definition createInitialState :: "EvolutionConfig \<Rightarrow> OntogenesisState" where
  "createInitialState cfg =
     \<lparr>populations = [], archive = [], config = cfg, globalGeneration = 0,
      totalKernelsCreated = 0, emergenceEvents = [], isEvolving = False,
      lastEvolutionCycle = 0\<rparr>"

definition blank_kernel :: CognitiveKernel where
  "blank_kernel =
     \<lparr>kernel_id = [], kernel_name = [], version = [], kernel_type = specialized,
      lineage = founder_lineage,
      genome = \<lparr>coreGenes = [], regulatoryGenes = [], expressionModifiers = [], checksum = []\<rparr>,
      fitness = createInitialFitness, kernel_state = DORMANT, created = 0, lastActivated = 0\<rparr>"

text \<open>
  The world right after \<^verbatim>\<open>new OntogenesisService(config)\<close>, \<open>cfg\<close> being the defaults
  overridden by \<^verbatim>\<open>config\<close>: no kernel object exists yet, the gene store holds the
  template genes.
\<close>

definition new_service :: "EvolutionConfig \<Rightarrow> Host \<Rightarrow> World" where
  "new_service cfg h =
     \<lparr>engine = createInitialState cfg,
      evolutionInterval = False,
      kernel_heap = (\<lambda>_. blank_kernel),
      kernel_next = 0,
      gene_heap = (\<lambda>a. if a < length template_genes then template_genes ! a
                        else template_gene [] [] 0),
      gene_next = length template_genes,
      host = h,
      emitted = []\<rparr>"

definition DEFAULT_EVOLUTION_CONFIG :: EvolutionConfig where
  "DEFAULT_EVOLUTION_CONFIG =
     \<lparr>generationInterval = 300000, populationCapacity = 50, baseMutationRate = 0.1,
      selectionPressure = 0.5, elitismRate = 0.1, crossoverRate = 0.7,
      enableEmergence = True, archiveThreshold = 0.3\<rparr>"

text \<open>
  What can happen to the service: a call of one of its public methods, a caller
  building a gene object of its own (for a template or a custom genome), or the
  interval timer firing, which it does only while it is set.
\<close>

datatype Call =
  StartEvolution
  | StopEvolution
  | TimerTick
  | NewGene Gene
  | CreateKernel KernelTemplate "PartialGenome option"
  | Breed BreedingRequest
  | EvaluateFitness string PartialScores
  | ActivateKernel string
  | DeprecateKernel string

definition world_after :: "'a M \<Rightarrow> World \<Rightarrow> World option" where
  "world_after m w = map_option snd (m w)"

definition perform :: "Call \<Rightarrow> World \<Rightarrow> World option" where
  "perform c w = (case c of
       StartEvolution \<Rightarrow> world_after startEvolution w
     | StopEvolution \<Rightarrow> world_after stopEvolution w
     | TimerTick \<Rightarrow> (if evolutionInterval w then world_after evolutionCycle w else Some w)
     | NewGene g \<Rightarrow> world_after (alloc_gene g) w
     | CreateKernel t c \<Rightarrow> world_after (createKernel t c) w
     | Breed r \<Rightarrow> world_after (breed r) w
     | EvaluateFitness i s \<Rightarrow> world_after (evaluateFitness i s) w
     | ActivateKernel i \<Rightarrow> world_after (activateKernel i) w
     | DeprecateKernel i \<Rightarrow> world_after (deprecateKernel i) w)"

fun run :: "Call list \<Rightarrow> World \<Rightarrow> World option" where
  "run [] w = Some w"
| "run (c # cs) w = (case perform c w of None \<Rightarrow> None | Some w' \<Rightarrow> run cs w')"

section \<open>Sample worlds\<close>

text \<open>
  A host for the examples: every \<^verbatim>\<open>Math.random()\<close> answers 0.5, whose radix-36 text is
  \<^verbatim>\<open>0.i\<close>; the clock advances by one millisecond per reading; the decimal text of a
  number is exact on the natural numbers, which is all the examples print.
\<close>

definition sample_host :: Host where
  "sample_host =
     \<lparr>randoms = (\<lambda>n. 1 / 2), random_calls = 0,
      clock = (\<lambda>n. 1700000000000 + n), clock_calls = 0,
      number_text = (\<lambda>x. decimal (nat \<lfloor>x\<rfloor>)),
      radix36_text = (\<lambda>x. ''0.i'')\<rparr>"

text \<open>A kernel object with the given id, state and evaluation count, otherwise blank.\<close>

definition sample_kernel :: "string \<Rightarrow> KernelState \<Rightarrow> real \<Rightarrow> nat \<Rightarrow> CognitiveKernel" where
  "sample_kernel i st score n =
     blank_kernel\<lparr>kernel_id := i, kernel_type := inference, kernel_state := st,
       fitness := createInitialFitness\<lparr>overall := score, performance := score,
         efficiency := score, reliability := score, adaptability := score,
         innovation := score, evaluations := n\<rparr>\<rparr>"

definition sample_population :: "nat list \<Rightarrow> int \<Rightarrow> KernelPopulation" where
  "sample_population ks cap =
     \<lparr>population_id = ''pop-inference'', population_name = ''inference'',
      population_generation = 0, kernels = ks, statistics = empty_statistics,
      selectionPressure_of = 0.5, mutationRate_of = 0.1, capacity = cap\<rparr>"

text \<open>
  A service with the default configuration whose only population lists the kernel
  objects \<open>ks\<close> (at the addresses \<open>0, 1, ...\<close>) that are not archived, and whose archive
  lists those that are.
\<close>

definition sample_world :: "CognitiveKernel list \<Rightarrow> int \<Rightarrow> World" where
  "sample_world ks cap =
     (new_service DEFAULT_EVOLUTION_CONFIG sample_host)
       \<lparr>engine := (createInitialState DEFAULT_EVOLUTION_CONFIG)
          \<lparr>populations :=
             [sample_population (filter (\<lambda>a. kernel_state (ks ! a) \<noteq> ARCHIVED) [0..<length ks]) cap],
           archive := filter (\<lambda>a. kernel_state (ks ! a) = ARCHIVED) [0..<length ks],
           isEvolving := True\<rparr>,
        evolutionInterval := True,
        kernel_heap := (\<lambda>a. if a < length ks then ks ! a else blank_kernel),
        kernel_next := length ks\<rparr>"

text \<open>
  The world after \<^verbatim>\<open>startEvolution()\<close> on a new service with configuration \<open>cfg\<close> under the
  sample host: twenty founders, five per population; founder \<open>n\<close> is made by the
  \<open>n\<close>-th call of \<^verbatim>\<open>createKernel\<close>, which reads the clock three times and draws once.
\<close>

definition seed_kernel :: "nat \<Rightarrow> CognitiveKernel" where
  "seed_kernel n =
     (let template = KERNEL_TEMPLATES ! (n div 5); g = template_genome template None
      in founder_kernel template
           (''kernel-'' @ decimal (1700000000000 + 3 * n) @ ''-i'')
           (g\<lparr>checksum := genome_checksum (number_text sample_host)
                              (gene_heap (new_service DEFAULT_EVOLUTION_CONFIG sample_host)) g\<rparr>)
           (1700000000000 + 3 * n + 1))"

definition seed_event :: "nat \<Rightarrow> OntogenesisEvent" where
  "seed_event n =
     \<lparr>event_type = kernel_created, event_timestamp = 1700000000000 + 3 * n + 2,
      event_data = KernelData n\<rparr>"

definition seed_population :: "EvolutionConfig \<Rightarrow> KernelType \<Rightarrow> nat list \<Rightarrow> KernelPopulation" where
  "seed_population cfg ty ks =
     \<lparr>population_id = ''pop-'' @ type_text ty, population_name = type_text ty,
      population_generation = 0, kernels = ks,
      statistics = empty_statistics\<lparr>totalCreated := 5\<rparr>,
      selectionPressure_of = selectionPressure cfg, mutationRate_of = baseMutationRate cfg,
      capacity = \<lfloor>populationCapacity cfg / 4\<rfloor>\<rparr>"

definition started :: "EvolutionConfig \<Rightarrow> World" where
  "started cfg =
     \<lparr>engine =
        \<lparr>populations =
           [seed_population cfg inference [0, 1, 2, 3, 4],
            seed_population cfg reasoning [5, 6, 7, 8, 9],
            seed_population cfg memory [10, 11, 12, 13, 14],
            seed_population cfg meta [15, 16, 17, 18, 19]],
         archive = [], config = cfg, globalGeneration = 0, totalKernelsCreated = 20,
         emergenceEvents = [], isEvolving = True, lastEvolutionCycle = 0\<rparr>,
      evolutionInterval = True,
      kernel_heap = fold (\<lambda>n h. h(n := seed_kernel n)) [0..<20] (\<lambda>_. blank_kernel),
      kernel_next = 20,
      gene_heap = gene_heap (new_service cfg sample_host),
      gene_next = gene_next (new_service cfg sample_host),
      host = sample_host\<lparr>random_calls := 20, clock_calls := 60\<rparr>,
      emitted = map seed_event [0..<20]\<rparr>"

text \<open>Scores for the examples: all five supplied, all equal.\<close>

definition uniform_scores :: "real \<Rightarrow> PartialScores" where
  "uniform_scores x =
     \<lparr>given_performance = Some x, given_efficiency = Some x, given_reliability = Some x,
      given_adaptability = Some x, given_innovation = Some x\<rparr>"

text \<open>Configurations for the examples: a high archive threshold; no room to breed.\<close>

definition strict_config :: EvolutionConfig where
  "strict_config = DEFAULT_EVOLUTION_CONFIG\<lparr>archiveThreshold := 0.9\<rparr>"

definition quiet_config :: EvolutionConfig where
  "quiet_config = DEFAULT_EVOLUTION_CONFIG\<lparr>populationCapacity := 0\<rparr>"

text \<open>
  A run that starts the service and reports the worst scores for each of the five
  founders of the first population.
\<close>

definition cull_calls :: "Call list" where
  "cull_calls =
     [StartEvolution,
      EvaluateFitness ''kernel-1700000000000-i'' (uniform_scores 0),
      EvaluateFitness ''kernel-1700000000003-i'' (uniform_scores 0),
      EvaluateFitness ''kernel-1700000000006-i'' (uniform_scores 0),
      EvaluateFitness ''kernel-1700000000009-i'' (uniform_scores 0),
      EvaluateFitness ''kernel-1700000000012-i'' (uniform_scores 0)]"

text \<open>A gene that is a switch, and a template whose only core gene is at address 12.\<close>

definition toggle_gene :: Gene where
  "toggle_gene =
     \<lparr>gene_id = ''toggle'', gene_name = ''Toggle'', gene_type = switch_gene,
      gene_value = BooleanValue False, mutable = True, expressionLevel = 1\<rparr>"

definition toggle_template :: KernelTemplate where
  "toggle_template = kernel_template ''Toggle'' inference [12]"

text \<open>
  A host whose clock stands still, so that every kernel gets the id \<^verbatim>\<open>kernel-0-i\<close>; the
  world after \<^verbatim>\<open>startEvolution()\<close> on a new service under that host; a configuration with
  no elite.
\<close>

definition still_host :: Host where
  "still_host =
     \<lparr>randoms = (\<lambda>n. 1 / 2), random_calls = 0,
      clock = (\<lambda>n. 0), clock_calls = 0,
      number_text = (\<lambda>x. decimal (nat \<lfloor>x\<rfloor>)),
      radix36_text = (\<lambda>x. ''0.i'')\<rparr>"

definition twin_kernel :: "nat \<Rightarrow> CognitiveKernel" where
  "twin_kernel n =
     (let template = KERNEL_TEMPLATES ! (n div 5); g = template_genome template None
      in founder_kernel template ''kernel-0-i''
           (g\<lparr>checksum := genome_checksum (number_text still_host)
                              (gene_heap (new_service DEFAULT_EVOLUTION_CONFIG still_host)) g\<rparr>)
           0)"

definition twin_event :: "nat \<Rightarrow> OntogenesisEvent" where
  "twin_event n =
     \<lparr>event_type = kernel_created, event_timestamp = 0, event_data = KernelData n\<rparr>"

definition stalled :: "EvolutionConfig \<Rightarrow> World" where
  "stalled cfg =
     \<lparr>engine =
        \<lparr>populations =
           [seed_population cfg inference [0, 1, 2, 3, 4],
            seed_population cfg reasoning [5, 6, 7, 8, 9],
            seed_population cfg memory [10, 11, 12, 13, 14],
            seed_population cfg meta [15, 16, 17, 18, 19]],
         archive = [], config = cfg, globalGeneration = 0, totalKernelsCreated = 20,
         emergenceEvents = [], isEvolving = True, lastEvolutionCycle = 0\<rparr>,
      evolutionInterval = True,
      kernel_heap = fold (\<lambda>n h. h(n := twin_kernel n)) [0..<20] (\<lambda>_. blank_kernel),
      kernel_next = 20,
      gene_heap = gene_heap (new_service cfg still_host),
      gene_next = gene_next (new_service cfg still_host),
      host = still_host\<lparr>random_calls := 20, clock_calls := 60\<rparr>,
      emitted = map twin_event [0..<20]\<rparr>"

definition barren_config :: EvolutionConfig where
  "barren_config = DEFAULT_EVOLUTION_CONFIG\<lparr>elitismRate := 0\<rparr>"




section \<open>Frames and invariants\<close>

text \<open>
  \<open>stays R m\<close>: whenever the method \<open>m\<close> ends, by returning or by throwing, the world it
  leaves is related by \<open>R\<close> to the world it started in.
\<close>

definition stays :: "(World \<Rightarrow> World \<Rightarrow> bool) \<Rightarrow> 'a M \<Rightarrow> bool" where
  "stays R m = (\<forall>w r w'. m w = Some (r, w') \<longrightarrow> R w w')"

text \<open>The kernel lists of the populations, in the order of \<^verbatim>\<open>state.populations\<close>.\<close>

definition rosters :: "World \<Rightarrow> nat list list" where
  "rosters w = map kernels (populations (engine w))"

text \<open>Who is where, and the kernel objects: what the gene operators never touch.\<close>

definition census :: "World \<Rightarrow> nat list list \<times> nat list \<times> (nat \<Rightarrow> CognitiveKernel) \<times> nat" where
  "census w = (map kernels (populations (engine w)), archive (engine w), kernel_heap w, kernel_next w)"

definition same_census :: "World \<Rightarrow> World \<Rightarrow> bool" where
  "same_census w w' = (census w' = census w)"

definition newborn :: "CognitiveKernel \<Rightarrow> bool" where
  "newborn k = (kernel_state k = DORMANT \<and> fitness k = createInitialFitness)"

text \<open>
  \<open>grows\<close>: populations and archive list the same kernels, the kernel objects that
  existed are untouched, and every kernel object made since is DORMANT with the
  initial fitness.
\<close>

definition grows :: "World \<Rightarrow> World \<Rightarrow> bool" where
  "grows w w' =
     (rosters w' = rosters w \<and> archive (engine w') = archive (engine w) \<and>
      kernel_next w \<le> kernel_next w' \<and>
      (\<forall>a < kernel_next w. kernel_heap w' a = kernel_heap w a) \<and>
      (\<forall>a. kernel_next w \<le> a \<and> a < kernel_next w' \<longrightarrow> newborn (kernel_heap w' a)))"

text \<open>
  \<open>sound\<close>: every listed address is an existing kernel object; no kernel of a population
  is ARCHIVED or listed in the archive; no kernel is in two populations.
\<close>

definition sound :: "World \<Rightarrow> bool" where
  "sound w =
     ((\<forall>a \<in> set (archive (engine w)). a < kernel_next w) \<and>
      (\<forall>ks \<in> set (rosters w). \<forall>a \<in> set ks.
         a < kernel_next w \<and> kernel_state (kernel_heap w a) \<noteq> ARCHIVED \<and>
         a \<notin> set (archive (engine w))) \<and>
      (\<forall>i < length (rosters w). \<forall>j < length (rosters w).
         i \<noteq> j \<longrightarrow> set (rosters w ! i) \<inter> set (rosters w ! j) = {}))"

text \<open>\<open>evolves\<close>: the fitness of an existing kernel is untouched, a new kernel has the initial one.\<close>

definition evolves :: "World \<Rightarrow> World \<Rightarrow> bool" where
  "evolves w w' =
     (kernel_next w \<le> kernel_next w' \<and>
      (\<forall>a < kernel_next w. fitness (kernel_heap w' a) = fitness (kernel_heap w a)) \<and>
      (\<forall>a. kernel_next w \<le> a \<and> a < kernel_next w' \<longrightarrow>
         fitness (kernel_heap w' a) = createInitialFitness))"

definition advances :: "World \<Rightarrow> World \<Rightarrow> bool" where
  "advances w w' =
     ((sound w \<longrightarrow> sound w') \<and>
      set (archive (engine w)) \<subseteq> set (archive (engine w')) \<and>
      evolves w w')"

text \<open>
  \<open>paced n\<close>: a step of the evolution cycle of a service with \<open>n\<close> populations.
\<close>

definition paced :: "nat \<Rightarrow> World \<Rightarrow> World \<Rightarrow> bool" where
  "paced n w w' =
     (length (populations (engine w)) = n \<longrightarrow>
        advances w w' \<and> length (populations (engine w')) = n)"

text \<open>
  The fitness invariants: \<open>weighted\<close>, every kernel object's \<^verbatim>\<open>overall\<close> is the weighted sum
  of its five components; \<open>bounded\<close>, all six scores of every kernel object lie in
  \<open>[0, 1]\<close>. \<open>unit_call\<close> holds of a call unless it is an \<^verbatim>\<open>evaluateFitness\<close> that supplies a
  score outside \<open>[0, 1]\<close>.
\<close>

definition weighted :: "World \<Rightarrow> bool" where
  "weighted w =
     (\<forall>a < kernel_next w.
        overall (fitness (kernel_heap w a)) = calculateOverallFitness (fitness (kernel_heap w a)))"

definition unit_scores :: "FitnessScores \<Rightarrow> bool" where
  "unit_scores f =
     (0 \<le> overall f \<and> overall f \<le> 1 \<and> 0 \<le> performance f \<and> performance f \<le> 1 \<and>
      0 \<le> efficiency f \<and> efficiency f \<le> 1 \<and> 0 \<le> reliability f \<and> reliability f \<le> 1 \<and>
      0 \<le> adaptability f \<and> adaptability f \<le> 1 \<and> 0 \<le> innovation f \<and> innovation f \<le> 1)"

definition bounded :: "World \<Rightarrow> bool" where
  "bounded w = (\<forall>a < kernel_next w. unit_scores (fitness (kernel_heap w a)))"

definition in_unit :: "real option \<Rightarrow> bool" where
  "in_unit v = (case v of None \<Rightarrow> True | Some x \<Rightarrow> 0 \<le> x \<and> x \<le> 1)"

definition unit_given :: "PartialScores \<Rightarrow> bool" where
  "unit_given s =
     (in_unit (given_performance s) \<and> in_unit (given_efficiency s) \<and>
      in_unit (given_reliability s) \<and> in_unit (given_adaptability s) \<and>
      in_unit (given_innovation s))"

definition unit_call :: "Call \<Rightarrow> bool" where
  "unit_call c = (case c of EvaluateFitness i s \<Rightarrow> unit_given s | _ \<Rightarrow> True)"

definition progress :: "bool \<Rightarrow> World \<Rightarrow> World \<Rightarrow> bool" where
  "progress u w w' =
     ((sound w \<longrightarrow> sound w') \<and>
      set (archive (engine w)) \<subseteq> set (archive (engine w')) \<and>
      (weighted w \<longrightarrow> weighted w') \<and>
      (u \<longrightarrow> bounded w \<longrightarrow> bounded w'))"

definition or_else :: "real option \<Rightarrow> real \<Rightarrow> real" where
  "or_else v x = (case v of None \<Rightarrow> x | Some y \<Rightarrow> y)"

section \<open>Running the methods\<close>

lemma ret_apply: "ret x w = Some (Value x, w)"
  by (simp add: ret_def)

lemma throw_apply: "throw e w = Some (Exception e, w)"
  by (simp add: throw_def)

lemma reading_apply: "reading f w = Some (Value (f w), w)"
  by (simp add: reading_def)

lemma modify_apply: "modify f w = Some (Value (), f w)"
  by (simp add: modify_def)

lemma bnd_value: "m w = Some (Value x, w') \<Longrightarrow> bnd m f w = f x w'"
  by (simp add: bnd_def)

lemma bnd_exception: "m w = Some (Exception e, w') \<Longrightarrow> bnd m f w = Some (Exception e, w')"
  by (simp add: bnd_def)

lemma bnd_ret: "bnd (ret x) f = f x"
  by (simp add: bnd_def ret_def)

lemma bnd_throw: "bnd (throw e) f w = Some (Exception e, w)"
  by (simp add: bnd_def throw_def)

lemma bnd_reading: "bnd (reading g) f w = f (g w) w"
  by (simp add: bnd_def reading_def)

lemma bnd_modify: "bnd (modify g) f w = f () (g w)"
  by (simp add: bnd_def modify_def)

lemma bnd_date_now:
  "bnd date_now f w =
     f (clock (host w) (clock_calls (host w)))
       (w\<lparr>host := (host w)\<lparr>clock_calls := clock_calls (host w) + 1\<rparr>\<rparr>)"
  by (simp add: bnd_def date_now_def)

lemma bnd_math_random:
  "bnd math_random f w =
     f (randoms (host w) (random_calls (host w)))
       (w\<lparr>host := (host w)\<lparr>random_calls := random_calls (host w) + 1\<rparr>\<rparr>)"
  by (simp add: bnd_def math_random_def)

lemma bnd_runE:
  assumes "bnd m f w = Some (r, w'')"
  obtains (returned) x w' where "m w = Some (Value x, w')" "f x w' = Some (r, w'')"
        | (threw) e where "m w = Some (Exception e, w'')" "r = Exception e"
  using assms by (auto simp: bnd_def split: option.splits outcome.splits prod.splits)

lemma emitEvent_apply:
  "emitEvent ty d w = Some (Value (),
     w\<lparr>host := (host w)\<lparr>clock_calls := clock_calls (host w) + 1\<rparr>,
       emitted := emitted w @ [\<lparr>event_type = ty,
         event_timestamp = clock (host w) (clock_calls (host w)), event_data = d\<rparr>]\<rparr>)"
  by (simp add: emitEvent_def bnd_date_now modify_apply)

lemma bnd_emitEvent:
  "bnd (emitEvent ty d) f w = f ()
     (w\<lparr>host := (host w)\<lparr>clock_calls := clock_calls (host w) + 1\<rparr>,
       emitted := emitted w @ [\<lparr>event_type = ty,
         event_timestamp = clock (host w) (clock_calls (host w)), event_data = d\<rparr>]\<rparr>)"
  by (simp add: bnd_def emitEvent_apply)

lemmas step_simps =
  bnd_reading bnd_modify bnd_date_now bnd_math_random bnd_ret bnd_throw bnd_emitEvent
  ret_apply throw_apply reading_apply modify_apply emitEvent_apply

text \<open>
  Evaluating a method on a concrete world, first method first: with the two
  congruence rules the simplifier computes the answer of the first method before it
  looks at what follows.
\<close>

lemma bnd_apply: "bnd m f w = run_then (m w) f"
  by (simp add: bnd_def run_then_def)

lemma run_then_simps:
  "run_then None f = None"
  "run_then (Some (Value x, w)) f = f x w"
  "run_then (Some (Exception e, w)) f = Some (Exception e, w)"
  by (simp_all add: run_then_def)

lemma run_then_cong: "r = r' \<Longrightarrow> run_then r f = run_then r' f"
  by simp

lemma bnd_weak_cong: "w = w' \<Longrightarrow> bnd m f w = bnd m f w'"
  by simp

lemma date_now_apply:
  "date_now w = Some (Value (clock (host w) (clock_calls (host w))),
     w\<lparr>host := (host w)\<lparr>clock_calls := clock_calls (host w) + 1\<rparr>\<rparr>)"
  by (simp add: date_now_def)

lemma math_random_apply:
  "math_random w = Some (Value (randoms (host w) (random_calls (host w))),
     w\<lparr>host := (host w)\<lparr>random_calls := random_calls (host w) + 1\<rparr>\<rparr>)"
  by (simp add: math_random_def)

lemma decimal_numeral:
  "decimal (numeral k) =
     (if (numeral k :: nat) < 10 then [digit_char (numeral k)]
      else decimal (numeral k div 10) @ [digit_char (numeral k mod 10)])"
  by (rule decimal.simps)

lemma decimal_small: "decimal 0 = ''0''" "decimal 1 = ''1''" "decimal (Suc 0) = ''1''"
  by (simp_all add: decimal.simps digit_char_def)

lemma hexadecimal_numeral:
  "hexadecimal (numeral k) =
     (if (numeral k :: nat) < 16 then [digit_char (numeral k)]
      else hexadecimal (numeral k div 16) @ [digit_char (numeral k mod 16)])"
  by (rule hexadecimal.simps)

lemma hexadecimal_small:
  "hexadecimal 0 = ''0''" "hexadecimal 1 = ''1''" "hexadecimal (Suc 0) = ''1''"
  by (simp_all add: hexadecimal.simps digit_char_def)

lemmas text_simps =
  decimal_numeral decimal_small hexadecimal_numeral hexadecimal_small digit_char_def
  slice_def slice_from_def relative_index_def

lemma founder_kernel_fields [simp]:
  "kernel_id (founder_kernel template i g t) = i"
  "kernel_state (founder_kernel template i g t) = DORMANT"
  "fitness (founder_kernel template i g t) = createInitialFitness"
  "genome (founder_kernel template i g t) = g"
  "lineage (founder_kernel template i g t) = founder_lineage"
  "kernel_type (founder_kernel template i g t) = template_type template"
  "created (founder_kernel template i g t) = t"
  "lastActivated (founder_kernel template i g t) = 0"
  by (simp_all add: founder_kernel_def)

lemma sample_host_fields [simp]:
  "randoms sample_host = (\<lambda>n. 1 / 2)"
  "random_calls sample_host = 0"
  "clock sample_host = (\<lambda>n. 1700000000000 + n)"
  "clock_calls sample_host = 0"
  "radix36_text sample_host = (\<lambda>x. ''0.i'')"
  by (simp_all add: sample_host_def)

lemmas sample_simps =
  sample_world_def sample_population_def sample_kernel_def sample_host_def
  new_service_def createInitialState_def DEFAULT_EVOLUTION_CONFIG_def blank_kernel_def
  createInitialFitness_def founder_lineage_def empty_statistics_def

section \<open>Frames of the methods\<close>

lemma staysI: "(\<And>w r w'. m w = Some (r, w') \<Longrightarrow> R w w') \<Longrightarrow> stays R m"
  by (simp add: stays_def)

lemma staysD: "stays R m \<Longrightarrow> m w = Some (r, w') \<Longrightarrow> R w w'"
  by (simp add: stays_def)

lemma stays_mono: "stays R m \<Longrightarrow> (\<And>w w'. R w w' \<Longrightarrow> S w w') \<Longrightarrow> stays S m"
  by (auto simp: stays_def)

lemma stays_ret: "reflp R \<Longrightarrow> stays R (ret x)"
  by (auto simp: stays_def ret_def reflp_def)

lemma stays_throw: "reflp R \<Longrightarrow> stays R (throw e)"
  by (auto simp: stays_def throw_def reflp_def)

lemma stays_reading: "reflp R \<Longrightarrow> stays R (reading f)"
  by (auto simp: stays_def reading_def reflp_def)

lemma stays_modify: "(\<And>w. R w (f w)) \<Longrightarrow> stays R (modify f)"
  by (auto simp: stays_def modify_def)

lemma stays_bnd:
  assumes "transp R" "stays R m" "\<And>x. stays R (f x)"
  shows "stays R (bnd m f)"
proof (rule staysI)
  fix w r w'' assume "bnd m f w = Some (r, w'')"
  then show "R w w''"
  proof (cases rule: bnd_runE)
    case (returned x w')
    with assms show ?thesis by (meson staysD transpE)
  next
    case (threw e)
    with assms show ?thesis by (meson staysD)
  qed
qed

lemma stays_foldM:
  assumes "reflp R" "transp R" "\<And>x acc. x \<in> set xs \<Longrightarrow> stays R (f x acc)"
  shows "stays R (foldM f xs acc)"
  using assms(3)
proof (induction xs arbitrary: acc)
  case Nil
  then show ?case by (simp add: stays_ret assms(1))
next
  case (Cons x xs)
  show ?case
    by (simp, rule stays_bnd [OF assms(2)]) (simp_all add: Cons)
qed

lemma stays_if: "(c \<Longrightarrow> stays R m) \<Longrightarrow> (\<not> c \<Longrightarrow> stays R n) \<Longrightarrow> stays R (if c then m else n)"
  by simp

lemma stays_case_prod: "(\<And>a b. stays R (f a b)) \<Longrightarrow> stays R (case p of (a, b) \<Rightarrow> f a b)"
  by (cases p) simp

lemma stays_case_option:
  "stays R m \<Longrightarrow> (\<And>x. stays R (f x)) \<Longrightarrow> stays R (case v of None \<Rightarrow> m | Some x \<Rightarrow> f x)"
  by (cases v) simp_all

lemma stays_case_list:
  "stays R m \<Longrightarrow> (\<And>x xs. stays R (f x xs)) \<Longrightarrow> stays R (case v of [] \<Rightarrow> m | x # xs \<Rightarrow> f x xs)"
  by (cases v) simp_all

lemma stays_let: "stays R (f v) \<Longrightarrow> stays R (let x = v in f x)"
  by simp

lemma reflp_same_census: "reflp same_census"
  by (simp add: reflp_def same_census_def)

lemma transp_same_census: "transp same_census"
  by (simp add: transp_def same_census_def)

lemma nonzero_random_host:
  assumes "nonzero_random w = Some y"
  shows "\<exists>n u. y = (Value u, w\<lparr>host := (host w)\<lparr>random_calls := n\<rparr>\<rparr>) \<and> u \<noteq> 0"
proof (rule nonzero_random.raw_induct
    [where P = "\<lambda>w y. \<exists>n u. y = (Value u, w\<lparr>host := (host w)\<lparr>random_calls := n\<rparr>\<rparr>) \<and> u \<noteq> 0",
      OF _ assms])
  fix f :: "World \<Rightarrow> (real outcome \<times> World) option" and w y
  assume IH: "\<And>w y. f w = Some y \<Longrightarrow>
      \<exists>n u. y = (Value u, w\<lparr>host := (host w)\<lparr>random_calls := n\<rparr>\<rparr>) \<and> u \<noteq> 0"
    and step: "(if randoms (host w) (random_calls (host w)) = 0
      then f (w\<lparr>host := (host w)\<lparr>random_calls := random_calls (host w) + 1\<rparr>\<rparr>)
      else Some (Value (randoms (host w) (random_calls (host w))),
                 w\<lparr>host := (host w)\<lparr>random_calls := random_calls (host w) + 1\<rparr>\<rparr>)) = Some y"
  show "\<exists>n u. y = (Value u, w\<lparr>host := (host w)\<lparr>random_calls := n\<rparr>\<rparr>) \<and> u \<noteq> 0"
  proof (cases "randoms (host w) (random_calls (host w)) = 0")
    case True
    with step have "f (w\<lparr>host := (host w)\<lparr>random_calls := random_calls (host w) + 1\<rparr>\<rparr>) = Some y"
      by simp
    from IH [OF this] show ?thesis by auto
  next
    case False
    with step show ?thesis by auto
  qed
qed

lemma stays_nonzero_random:
  assumes "\<And>w h. R w (w\<lparr>host := h\<rparr>)"
  shows "stays R nonzero_random"
  by (rule staysI) (use assms in \<open>auto dest!: nonzero_random_host\<close>)

lemma same_census_host: "same_census w (w\<lparr>host := h\<rparr>)"
  by (simp add: same_census_def census_def)

lemmas census_rules =
  stays_bnd [OF transp_same_census] stays_foldM [OF reflp_same_census transp_same_census]
  stays_ret [OF reflp_same_census] stays_throw [OF reflp_same_census]
  stays_reading [OF reflp_same_census] stays_if stays_case_prod stays_case_option
  stays_case_list stays_let

lemma census_math_random: "stays same_census math_random"
  by (rule staysI) (auto simp: math_random_def same_census_def census_def)

lemma census_date_now: "stays same_census date_now"
  by (rule staysI) (auto simp: date_now_def same_census_def census_def)

lemma census_nonzero_random: "stays same_census nonzero_random"
  by (rule stays_nonzero_random) (rule same_census_host)

lemma census_alloc_gene: "stays same_census (alloc_gene g)"
  by (rule staysI) (auto simp: alloc_gene_def same_census_def census_def)

lemma census_set_gene_value: "stays same_census (set_gene_value a v)"
  by (rule staysI) (auto simp: set_gene_value_def modify_def same_census_def census_def)

lemma census_emitEvent: "stays same_census (emitEvent ty d)"
  by (rule staysI) (auto simp: emitEvent_apply same_census_def census_def)

lemmas census_prims =
  census_math_random census_date_now census_nonzero_random census_alloc_gene
  census_set_gene_value census_emitEvent

lemma census_copy_gene: "stays same_census (copy_gene a)"
  unfolding copy_gene_def by (intro census_rules census_prims)

lemma census_copy_genes: "stays same_census (copy_genes refs)"
  unfolding copy_genes_def by (intro census_rules census_prims census_copy_gene)

lemma census_generateKernelId: "stays same_census generateKernelId"
  unfolding generateKernelId_def by (intro census_rules census_prims)

lemma census_gaussianRandom: "stays same_census gaussianRandom"
  unfolding gaussianRandom_def by (intro census_rules census_prims)

lemma census_asexualReproduction: "stays same_census (asexualReproduction g)"
  unfolding asexualReproduction_def by (intro census_rules census_copy_genes)

lemma census_crossover_genomes: "stays same_census (crossover_genomes g1 g2)"
  unfolding crossover_genomes_def by (intro census_rules census_copy_genes census_prims)

lemma census_multiParentBreeding: "stays same_census (multiParentBreeding gs)"
  unfolding multiParentBreeding_def
  by (intro census_rules census_copy_genes census_copy_gene census_prims)

lemma census_mutateGene: "stays same_census (mutateGene a)"
  unfolding mutateGene_def
  by (intro census_rules census_prims census_gaussianRandom)
     (auto split: GeneType.splits GeneValue.splits
           intro!: census_rules census_prims census_gaussianRandom)

lemma census_applyMutations: "stays same_census (applyMutations g rate)"
  unfolding applyMutations_def
  by (intro census_rules census_prims census_mutateGene)

lemma census_child_genome: "stays same_census (child_genome request first pks)"
  unfolding child_genome_def
  by (intro census_rules census_applyMutations)
     (auto split: BreedingMethod.splits option.splits
           intro!: census_asexualReproduction census_crossover_genomes census_multiParentBreeding)

lemma census_pick_elite: "stays same_census (pick_elite elite)"
  unfolding pick_elite_def by (intro census_rules census_prims)

lemma census_choose_method: "stays same_census choose_method"
  unfolding choose_method_def by (intro census_rules census_prims)

lemma census_choose_parents: "stays same_census (choose_parents method elite)"
  unfolding choose_parents_def by (intro census_rules census_pick_elite)





lemma reflp_grows: "reflp grows"
  by (auto simp: reflp_def grows_def)

lemma transp_grows: "transp grows"
  unfolding transp_def grows_def
  by (auto, metis not_le_imp_less)

lemma census_grows: "same_census w w' \<Longrightarrow> grows w w'"
  by (auto simp: same_census_def census_def grows_def rosters_def)

lemma grows_census: "stays same_census m \<Longrightarrow> stays grows m"
  by (erule stays_mono) (rule census_grows)

lemmas grows_rules =
  stays_bnd [OF transp_grows] stays_foldM [OF reflp_grows transp_grows]
  stays_ret [OF reflp_grows] stays_throw [OF reflp_grows]
  stays_reading [OF reflp_grows] stays_if stays_case_prod stays_case_option
  stays_case_list stays_let

lemma grows_alloc_kernel: "newborn k \<Longrightarrow> stays grows (alloc_kernel k)"
  by (rule staysI) (auto simp: alloc_kernel_def grows_def rosters_def)

lemma grows_count_created: "stays grows count_created"
  by (rule staysI) (auto simp: count_created_def modify_def grows_def rosters_def)

lemma newborn_child_kernel: "newborn (child_kernel request first pks i g ms cid gg t)"
  by (simp add: newborn_def child_kernel_def)

lemma grows_breed_child: "stays grows (breed_child request p0 ps i acc)"
  unfolding breed_child_def
  by (intro grows_rules grows_alloc_kernel newborn_child_kernel grows_count_created
        grows_census [OF census_child_genome] grows_census [OF census_generateKernelId]
        grows_census [OF census_date_now])

lemma grows_breed: "stays grows (breed request)"
  unfolding breed_def
  by (intro grows_rules grows_breed_child grows_census [OF census_emitEvent])

lemma grows_createKernel: "stays grows (createKernel template custom)"
  unfolding createKernel_def
  by (intro grows_rules grows_alloc_kernel grows_count_created
        grows_census [OF census_generateKernelId] grows_census [OF census_date_now]
        grows_census [OF census_emitEvent])
     (simp_all add: newborn_def founder_kernel_def)

lemma bnd_generateKernelId:
  "bnd generateKernelId f w =
     f (''kernel-'' @ decimal (clock (host w) (clock_calls (host w))) @ ''-'' @
          slice 2 8 (radix36_text (host w) (randoms (host w) (random_calls (host w)))))
       (w\<lparr>host := (host w)\<lparr>clock_calls := clock_calls (host w) + 1,
                              random_calls := random_calls (host w) + 1\<rparr>\<rparr>)"
  by (simp add: generateKernelId_def bnd_def date_now_def math_random_def reading_def)

lemma bnd_alloc_kernel:
  "bnd (alloc_kernel k) f w =
     f (kernel_next w)
       (w\<lparr>kernel_heap := (kernel_heap w)(kernel_next w := k), kernel_next := kernel_next w + 1\<rparr>)"
  by (simp add: alloc_kernel_def bnd_def)

lemma bnd_alloc_gene:
  "bnd (alloc_gene g) f w =
     f (gene_next w)
       (w\<lparr>gene_heap := (gene_heap w)(gene_next w := g), gene_next := gene_next w + 1\<rparr>)"
  by (simp add: alloc_gene_def bnd_def)

lemma bnd_count_created:
  "bnd count_created f w =
     f () (w\<lparr>engine := (engine w)\<lparr>totalKernelsCreated := totalKernelsCreated (engine w) + 1\<rparr>\<rparr>)"
  by (simp add: count_created_def bnd_def modify_def)

lemma bnd_set_gene_value:
  "bnd (set_gene_value a v) f w =
     f () (w\<lparr>gene_heap := (gene_heap w)(a := (gene_heap w a)\<lparr>gene_value := v\<rparr>)\<rparr>)"
  by (simp add: set_gene_value_def bnd_def modify_def)

lemmas more_step_simps =
  bnd_generateKernelId bnd_alloc_kernel bnd_alloc_gene bnd_count_created bnd_set_gene_value

lemma breed_child_result:
  assumes "breed_child request p0 ps i acc w = Some (Value acc', w')"
  shows "\<exists>c. fst acc' = fst acc @ [c] \<and> kernel_next w \<le> c \<and> c < kernel_next w' \<and>
           breedingMethod (lineage (kernel_heap w' c)) = request_method request \<and>
           parents (lineage (kernel_heap w' c)) = map (\<lambda>a. kernel_id (kernel_heap w a)) ps"
proof -
  let ?first = "kernel_heap w p0" and ?pks = "map (kernel_heap w) ps"
  from assms have "bnd (child_genome request ?first ?pks) (\<lambda>(mutatedGenome, ms).
       bnd generateKernelId (\<lambda>cid.
       bnd (reading (\<lambda>w. globalGeneration (engine w))) (\<lambda>gg.
       bnd date_now (\<lambda>t.
       bnd (alloc_kernel (child_kernel request ?first ?pks i mutatedGenome ms cid gg t)) (\<lambda>child.
       bnd count_created (\<lambda>_.
       ret (fst acc @ [child], fst (snd acc) + length ms,
            snd (snd acc) + length (filter (\<lambda>m. mutation_type m = insertion) ms)))))))) w
       = Some (Value acc', w')"
    by (simp add: breed_child_def bnd_reading)
  then show ?thesis
  proof (cases rule: bnd_runE)
    case (returned x w1)
    from staysD [OF census_child_genome returned(1)] have same: "kernel_next w1 = kernel_next w"
      by (simp add: same_census_def census_def)
    from returned(2) same show ?thesis
      by (cases x) (auto simp: step_simps more_step_simps child_kernel_def comp_def)
  qed simp
qed

lemma breed_loop_result:
  assumes "foldM (breed_child request p0 ps) xs acc w = Some (Value acc', w')"
  shows "\<exists>new. fst acc' = fst acc @ new \<and>
           (\<forall>c \<in> set new. kernel_next w \<le> c \<and> c < kernel_next w' \<and>
              breedingMethod (lineage (kernel_heap w' c)) = request_method request)"
  using assms
proof (induction xs arbitrary: acc w)
  case Nil
  then show ?case by (simp add: ret_apply)
next
  case (Cons x xs)
  from Cons.prems have "bnd (breed_child request p0 ps x acc) (foldM (breed_child request p0 ps) xs) w
      = Some (Value acc', w')" by simp
  then show ?case
  proof (cases rule: bnd_runE)
    case (returned acc1 w1)
    from breed_child_result [OF returned(1)] obtain c where
      c: "fst acc1 = fst acc @ [c]" "kernel_next w \<le> c" "c < kernel_next w1"
         "breedingMethod (lineage (kernel_heap w1 c)) = request_method request"
      by blast
    from Cons.IH [OF returned(2)] obtain new where
      new: "fst acc' = fst acc1 @ new"
        "\<forall>c \<in> set new. kernel_next w1 \<le> c \<and> c < kernel_next w' \<and>
              breedingMethod (lineage (kernel_heap w' c)) = request_method request"
      by blast
    have g: "grows w1 w'"
      by (rule staysD [OF stays_foldM [OF reflp_grows transp_grows grows_breed_child] returned(2)])
    from g c have "kernel_heap w' c = kernel_heap w1 c" "c < kernel_next w'"
      by (auto simp: grows_def)
    with c new show ?thesis
      by (intro exI [of _ "c # new"]) auto
  qed simp
qed

lemma breed_offspring:
  assumes "breed request w = Some (Value res, w')"
  shows "\<forall>c \<in> set (offspring res). kernel_next w \<le> c \<and> c < kernel_next w' \<and>
           breedingMethod (lineage (kernel_heap w' c)) = request_method request"
proof (cases "List.map_filter (findKernel w) (request_parents request)")
  case Nil
  with assms show ?thesis by (auto simp: breed_def bnd_reading ret_apply no_offspring_def)
next
  case (Cons p0 rest)
  with assms have "bnd (foldM (breed_child request p0 (p0 # rest)) [0..<offspringCount request] ([], 0, 0))
     (\<lambda>acc.
         bnd (reading (\<lambda>w. BreedingData (map (\<lambda>a. kernel_id (kernel_heap w a)) (p0 # rest))
                              (map (\<lambda>a. kernel_id (kernel_heap w a)) (fst acc))
                              (request_method request))) (\<lambda>d.
         bnd (emitEvent breeding_complete d) (\<lambda>_.
         ret \<lparr>offspring = fst acc,
              successRate = real (length (fst acc)) / real (offspringCount request),
              mutationsApplied = fst (snd acc),
              novelGenes = snd (snd acc)\<rparr>))) w = Some (Value res, w')"
    by (simp add: breed_def bnd_reading)
  then show ?thesis
  proof (cases rule: bnd_runE)
    case (returned acc1 w1)
    from breed_loop_result [OF returned(1)] returned(2) show ?thesis
      by (auto simp: step_simps)
  qed simp
qed





lemma reflp_evolves: "reflp evolves"
  by (auto simp: reflp_def evolves_def)

lemma transp_evolves: "transp evolves"
  unfolding transp_def evolves_def
  by (auto, metis not_le_imp_less)

lemma reflp_advances: "reflp advances"
  using reflp_evolves by (auto simp: reflp_def advances_def)

lemma transp_advances: "transp advances"
  using transp_evolves unfolding transp_def advances_def by blast

lemma grows_sound: "grows w w' \<Longrightarrow> sound w \<Longrightarrow> sound w'"
  unfolding grows_def sound_def
  by (auto, (metis less_le_trans)+)

lemma grows_evolves: "grows w w' \<Longrightarrow> evolves w w'"
  by (auto simp: grows_def evolves_def newborn_def)

lemma grows_advances: "grows w w' \<Longrightarrow> advances w w'"
  by (auto simp: advances_def grows_sound grows_evolves) (simp add: grows_def)

section \<open>Selection, breeding and the invariants\<close>

lemma update_kernel_fields [simp]:
  "engine (update_kernel a f w) = engine w"
  "kernel_next (update_kernel a f w) = kernel_next w"
  "host (update_kernel a f w) = host w"
  "emitted (update_kernel a f w) = emitted w"
  "gene_heap (update_kernel a f w) = gene_heap w"
  "gene_next (update_kernel a f w) = gene_next w"
  "evolutionInterval (update_kernel a f w) = evolutionInterval w"
  "kernel_heap (update_kernel a f w) b = (if b = a then f (kernel_heap w a) else kernel_heap w b)"
  by (simp_all add: update_kernel_def)

lemma update_population_fields [simp]:
  "kernel_heap (update_population i f w) = kernel_heap w"
  "kernel_next (update_population i f w) = kernel_next w"
  "host (update_population i f w) = host w"
  "emitted (update_population i f w) = emitted w"
  "archive (engine (update_population i f w)) = archive (engine w)"
  "config (engine (update_population i f w)) = config (engine w)"
  "populations (engine (update_population i f w)) =
     (populations (engine w))[i := f (populations (engine w) ! i)]"
  by (simp_all add: update_population_def)

lemma rosters_update_population:
  "rosters (update_population i f w) = (rosters w)[i := kernels (f (populations (engine w) ! i))]"
  by (simp add: rosters_def map_update)

lemma rosters_update_same:
  "kernels (f (populations (engine w) ! i)) = kernels (populations (engine w) ! i) \<Longrightarrow>
   rosters (update_population i f w) = rosters w"
  by (simp add: rosters_update_population rosters_def)
     (metis list_update_beyond list_update_id map_update not_le_imp_less nth_map length_map)

lemma fold_archive_fields [simp]:
  "engine (fold (\<lambda>a. update_kernel a g) xs w) = engine w"
  "kernel_next (fold (\<lambda>a. update_kernel a g) xs w) = kernel_next w"
  by (induction xs arbitrary: w) simp_all

lemma fold_archive_heap:
  "kernel_heap (fold (\<lambda>a. update_kernel a (\<lambda>k. k\<lparr>kernel_state := ARCHIVED\<rparr>)) xs w) b =
     (if b \<in> set xs then (kernel_heap w b)\<lparr>kernel_state := ARCHIVED\<rparr> else kernel_heap w b)"
  by (induction xs arbitrary: w) auto

lemma set_ranked [simp]: "set (ranked w i) = set (kernels (populations (engine w) ! i))"
  by (simp add: ranked_def)

lemma set_toArchive:
  "set (toArchive w i) = {a \<in> set (kernels (populations (engine w) ! i)). below_threshold w a}"
  by (auto simp: toArchive_def)

lemma performSelection_heap:
  "kernel_heap (performSelection i w) b =
     (if b \<in> set (toArchive w i) then (kernel_heap w b)\<lparr>kernel_state := ARCHIVED\<rparr>
      else kernel_heap w b)"
  by (simp add: performSelection_def Let_def fold_archive_heap)

lemma performSelection_next [simp]: "kernel_next (performSelection i w) = kernel_next w"
  by (simp add: performSelection_def Let_def)

lemma performSelection_archive:
  "archive (engine (performSelection i w)) = archive (engine w) @ toArchive w i"
  by (simp add: performSelection_def Let_def)

lemma performSelection_length [simp]:
  "length (populations (engine (performSelection i w))) = length (populations (engine w))"
  by (simp add: performSelection_def Let_def)

lemma performSelection_rosters:
  "rosters (performSelection i w) =
     (rosters w)[i := filter (\<lambda>a. a \<notin> set (toArchive w i) \<and>
                               kernel_state (kernel_heap w a) \<noteq> ARCHIVED) (ranked w i)]"
  by (simp add: performSelection_def Let_def rosters_update_population fold_archive_heap
      rosters_def map_update cong: conj_cong)


lemma performSelection_sound:
  assumes "i < length (populations (engine w))" "sound w"
  shows "sound (performSelection i w)"
proof -
  let ?w = "performSelection i w"
  have len: "i < length (rosters w)" using assms(1) by (simp add: rosters_def)
  have ri: "rosters w ! i = kernels (populations (engine w) ! i)"
    using assms(1) by (simp add: rosters_def)
  have doomed: "set (toArchive w i) \<subseteq> set (rosters w ! i)"
    by (auto simp: set_toArchive ri)
  have in_i: "rosters w ! i \<in> set (rosters w)" using len by simp
  have a1: "\<forall>a \<in> set (archive (engine ?w)). a < kernel_next ?w"
    using assms(2) doomed in_i by (auto simp: performSelection_archive sound_def)
  have kept: "set (rosters ?w ! i) \<subseteq> set (rosters w ! i) - set (toArchive w i)"
    using len by (auto simp: performSelection_rosters ri)
  have other: "\<And>j. j \<noteq> i \<Longrightarrow> rosters ?w ! j = rosters w ! j"
    by (simp add: performSelection_rosters)
  have lens: "length (rosters ?w) = length (rosters w)"
    by (simp add: performSelection_rosters)
  have a2: "\<forall>ks \<in> set (rosters ?w). \<forall>a \<in> set ks.
         a < kernel_next ?w \<and> kernel_state (kernel_heap ?w a) \<noteq> ARCHIVED \<and>
         a \<notin> set (archive (engine ?w))"
  proof (intro ballI)
    fix ks a assume "ks \<in> set (rosters ?w)" "a \<in> set ks"
    then obtain j where j: "j < length (rosters w)" "ks = rosters ?w ! j"
      by (metis in_set_conv_nth lens)
    show "a < kernel_next ?w \<and> kernel_state (kernel_heap ?w a) \<noteq> ARCHIVED \<and>
         a \<notin> set (archive (engine ?w))"
    proof (cases "j = i")
      case True
      with j \<open>a \<in> set ks\<close> kept have a: "a \<in> set (rosters w ! i)" "a \<notin> set (toArchive w i)"
        by auto
      with assms(2) in_i show ?thesis
        by (auto simp: sound_def performSelection_heap performSelection_archive)
    next
      case False
      with j \<open>a \<in> set ks\<close> other have a: "a \<in> set (rosters w ! j)" by simp
      from assms(2) j(1) len False have "set (rosters w ! j) \<inter> set (rosters w ! i) = {}"
        by (simp add: sound_def)
      with a doomed have "a \<notin> set (toArchive w i)" by auto
      moreover have "rosters w ! j \<in> set (rosters w)" using j(1) by simp
      ultimately show ?thesis using assms(2) a
        by (auto simp: sound_def performSelection_heap performSelection_archive)
    qed
  qed
  have a3: "\<forall>j < length (rosters ?w). \<forall>k < length (rosters ?w).
         j \<noteq> k \<longrightarrow> set (rosters ?w ! j) \<inter> set (rosters ?w ! k) = {}"
  proof (intro allI impI)
    fix j k assume jk: "j < length (rosters ?w)" "k < length (rosters ?w)" "j \<noteq> k"
    have sub: "\<And>m. set (rosters ?w ! m) \<subseteq> set (rosters w ! m)"
      using kept other by (metis Diff_subset order_refl subset_trans)
    from assms(2) jk lens have "set (rosters w ! j) \<inter> set (rosters w ! k) = {}"
      by (simp add: sound_def)
    with sub [of j] sub [of k] show "set (rosters ?w ! j) \<inter> set (rosters ?w ! k) = {}"
      by blast
  qed
  from a1 a2 a3 show ?thesis by (simp add: sound_def)
qed

lemma performSelection_advances:
  assumes "i < length (populations (engine w))"
  shows "advances w (performSelection i w)"
  using performSelection_sound [OF assms]
  by (auto simp: advances_def performSelection_archive evolves_def performSelection_heap)



lemma reflp_paced: "reflp (paced n)"
  using reflp_advances by (auto simp: reflp_def paced_def)

lemma transp_paced: "transp (paced n)"
  using transp_advances unfolding transp_def paced_def by blast

lemma grows_length: "grows w w' \<Longrightarrow> length (populations (engine w')) = length (populations (engine w))"
  by (simp add: grows_def rosters_def) (metis length_map)

lemma grows_paced: "grows w w' \<Longrightarrow> paced n w w'"
  by (simp add: paced_def grows_advances grows_length)

lemma census_paced: "same_census w w' \<Longrightarrow> paced n w w'"
  by (rule grows_paced) (rule census_grows)

lemma paced_census: "stays same_census m \<Longrightarrow> stays (paced n) m"
  by (erule stays_mono) (rule census_paced)

lemma paced_grows: "stays grows m \<Longrightarrow> stays (paced n) m"
  by (erule stays_mono) (rule grows_paced)

lemmas paced_rules =
  stays_bnd [OF transp_paced] stays_foldM [OF reflp_paced transp_paced]
  stays_ret [OF reflp_paced] stays_throw [OF reflp_paced]
  stays_reading [OF reflp_paced] stays_if stays_case_prod stays_case_option
  stays_case_list stays_let

lemma paced_performSelection: "i < n \<Longrightarrow> stays (paced n) (modify (performSelection i))"
  by (rule stays_modify) (simp add: paced_def performSelection_advances)

lemma push_sound:
  assumes "sound w" "grows w w1" "kernel_next w \<le> c" "c < kernel_next w1"
    "i < length (populations (engine w1))"
  shows "sound (update_population i (\<lambda>p. p\<lparr>kernels := kernels p @ [c],
           statistics := (statistics p)\<lparr>totalCreated := totalCreated (statistics p) + 1\<rparr>\<rparr>) w1)"
proof -
  let ?w = "update_population i (\<lambda>p. p\<lparr>kernels := kernels p @ [c],
           statistics := (statistics p)\<lparr>totalCreated := totalCreated (statistics p) + 1\<rparr>\<rparr>) w1"
  have s1: "sound w1" using assms(1,2) by (rule grows_sound [rotated])
  have len: "i < length (rosters w1)" using assms(5) by (simp add: rosters_def)
  have r: "rosters ?w = (rosters w1)[i := rosters w1 ! i @ [c]]"
    using assms(5) by (simp add: rosters_update_population) (simp add: rosters_def)
  have old: "\<And>ks a. ks \<in> set (rosters w1) \<Longrightarrow> a \<in> set ks \<Longrightarrow> a < kernel_next w"
    using assms(1,2) by (auto simp: sound_def grows_def)
  have fresh: "\<And>ks. ks \<in> set (rosters w1) \<Longrightarrow> c \<notin> set ks"
    using old assms(3) by fastforce
  have arch: "c \<notin> set (archive (engine w1))"
    using assms(1,2,3) by (fastforce simp: sound_def grows_def)
  have born: "kernel_state (kernel_heap w1 c) \<noteq> ARCHIVED"
    using assms(2,3,4) by (auto simp: grows_def newborn_def)
  have a2: "\<forall>ks \<in> set (rosters ?w). \<forall>a \<in> set ks.
         a < kernel_next ?w \<and> kernel_state (kernel_heap ?w a) \<noteq> ARCHIVED \<and>
         a \<notin> set (archive (engine ?w))"
  proof (intro ballI)
    fix ks a assume "ks \<in> set (rosters ?w)" "a \<in> set ks"
    then have "(\<exists>ks' \<in> set (rosters w1). a \<in> set ks') \<or> a = c"
      unfolding r using len by (auto dest!: set_update_subset_insert [THEN subsetD])
    then show "a < kernel_next ?w \<and> kernel_state (kernel_heap ?w a) \<noteq> ARCHIVED \<and>
         a \<notin> set (archive (engine ?w))"
      using s1 assms(4) arch born by (auto simp: sound_def)
  qed
  have a3: "\<forall>j < length (rosters ?w). \<forall>k < length (rosters ?w).
         j \<noteq> k \<longrightarrow> set (rosters ?w ! j) \<inter> set (rosters ?w ! k) = {}"
  proof (intro allI impI)
    fix j k assume jk: "j < length (rosters ?w)" "k < length (rosters ?w)" "j \<noteq> k"
    then have jk1: "j < length (rosters w1)" "k < length (rosters w1)" unfolding r by simp_all
    from s1 jk1 jk(3) have d: "set (rosters w1 ! j) \<inter> set (rosters w1 ! k) = {}"
      by (simp add: sound_def)
    have cj: "c \<notin> set (rosters w1 ! j)" and ck: "c \<notin> set (rosters w1 ! k)"
      using fresh jk1 by simp_all
    show "set (rosters ?w ! j) \<inter> set (rosters ?w ! k) = {}"
      unfolding r using d cj ck jk1 jk(3) len
      by (auto simp: nth_list_update split: if_splits)
  qed
  have a1: "\<forall>a \<in> set (archive (engine ?w)). a < kernel_next ?w"
    using s1 by (simp add: sound_def)
  from a1 a2 a3 show ?thesis by (simp add: sound_def)
qed

lemma paced_breed_and_push:
  assumes "i < n"
  shows "stays (paced n)
     (bnd (breed request) (\<lambda>result.
        case offspring result of
          [] \<Rightarrow> ret ()
        | child # _ \<Rightarrow>
            modify (update_population i (\<lambda>p. p\<lparr>kernels := kernels p @ [child],
              statistics := (statistics p)\<lparr>totalCreated := totalCreated (statistics p) + 1\<rparr>\<rparr>))))"
proof (rule staysI)
  fix w r w'
  assume run: "bnd (breed request) (\<lambda>result.
        case offspring result of
          [] \<Rightarrow> ret ()
        | child # _ \<Rightarrow>
            modify (update_population i (\<lambda>p. p\<lparr>kernels := kernels p @ [child],
              statistics := (statistics p)\<lparr>totalCreated := totalCreated (statistics p) + 1\<rparr>\<rparr>))) w
      = Some (r, w')"
  then show "paced n w w'"
  proof (cases rule: bnd_runE)
    case (returned res w1)
    have g: "grows w w1" by (rule staysD [OF grows_breed returned(1)])
    show ?thesis
    proof (cases "offspring res")
      case Nil
      with returned(2) have "w' = w1" by (simp add: ret_apply)
      with g show ?thesis by (simp add: grows_paced)
    next
      case (Cons c rest)
      with returned(2) have w': "w' = update_population i (\<lambda>p. p\<lparr>kernels := kernels p @ [c],
              statistics := (statistics p)\<lparr>totalCreated := totalCreated (statistics p) + 1\<rparr>\<rparr>) w1"
        by (simp add: modify_apply)
      from breed_offspring [OF returned(1)] Cons
      have c: "kernel_next w \<le> c" "c < kernel_next w1" by simp_all
      show ?thesis
        unfolding paced_def
      proof (intro impI conjI)
        assume n: "length (populations (engine w)) = n"
        with g assms have i: "i < length (populations (engine w1))" by (simp add: grows_length)
        show "length (populations (engine w')) = n"
          using n g by (simp add: w' grows_length)
        have "sound w \<Longrightarrow> sound w'"
          unfolding w' by (rule push_sound [OF _ g c i])
        moreover have "evolves w w'"
          using grows_evolves [OF g] by (simp add: evolves_def w')
        moreover have "set (archive (engine w)) \<subseteq> set (archive (engine w'))"
          using g by (simp add: grows_def w')
        ultimately show "advances w w'" by (simp add: advances_def)
      qed
    qed
  next
    case (threw e)
    then show ?thesis by (intro grows_paced staysD [OF grows_breed])
  qed
qed

lemma paced_breeding_slot: "i < n \<Longrightarrow> stays (paced n) (breeding_slot i elite)"
  unfolding breeding_slot_def
  by (intro paced_rules paced_breed_and_push paced_census [OF census_choose_method]
        paced_census [OF census_choose_parents])

lemma paced_performBreeding: "i < n \<Longrightarrow> stays (paced n) (performBreeding i)"
  unfolding performBreeding_def
  by (intro paced_rules paced_breeding_slot)









lemma initial_weighted:
  "overall createInitialFitness = calculateOverallFitness createInitialFitness"
  by (simp add: createInitialFitness_def calculateOverallFitness_def)

lemma initial_unit: "unit_scores createInitialFitness"
  by (simp add: createInitialFitness_def unit_scores_def)

lemma evolves_weighted:
  assumes "evolves w w'" "weighted w"
  shows "weighted w'"
  unfolding weighted_def
proof (intro allI impI)
  fix a assume "a < kernel_next w'"
  show "overall (fitness (kernel_heap w' a)) = calculateOverallFitness (fitness (kernel_heap w' a))"
  proof (cases "a < kernel_next w")
    case True
    with assms show ?thesis by (simp add: evolves_def weighted_def)
  next
    case False
    with assms(1) \<open>a < kernel_next w'\<close> have "fitness (kernel_heap w' a) = createInitialFitness"
      by (simp add: evolves_def)
    then show ?thesis by (simp add: initial_weighted)
  qed
qed

lemma evolves_bounded:
  assumes "evolves w w'" "bounded w"
  shows "bounded w'"
  unfolding bounded_def
proof (intro allI impI)
  fix a assume "a < kernel_next w'"
  show "unit_scores (fitness (kernel_heap w' a))"
  proof (cases "a < kernel_next w")
    case True
    with assms show ?thesis by (simp add: evolves_def bounded_def)
  next
    case False
    with assms(1) \<open>a < kernel_next w'\<close> have "fitness (kernel_heap w' a) = createInitialFitness"
      by (simp add: evolves_def)
    then show ?thesis by (simp add: initial_unit)
  qed
qed

lemma advances_progress: "advances w w' \<Longrightarrow> progress u w w'"
  by (auto simp: advances_def progress_def evolves_weighted evolves_bounded)

lemma reflp_progress: "reflp (progress u)"
  by (auto simp: reflp_def progress_def)

lemma transp_progress: "transp (progress u)"
  unfolding transp_def progress_def by blast

lemma census_update_population:
  assumes "\<And>p. kernels (f p) = kernels p"
  shows "same_census w (update_population i f w)"
  using rosters_update_same [of f w i] assms
  by (simp add: same_census_def census_def rosters_def)

lemma census_modify_population:
  "(\<And>w p. kernels (f w p) = kernels p) \<Longrightarrow>
   stays same_census (modify (\<lambda>w. update_population i (f w) w))"
  by (rule stays_modify) (rule census_update_population)

lemma census_modify_engine:
  assumes "\<And>e. populations (f e) = populations e"
    and "\<And>e. archive (f e) = archive e"
  shows "stays same_census (modify (\<lambda>w. w\<lparr>engine := f (engine w)\<rparr>))"
  by (rule stays_modify) (simp add: same_census_def census_def assms)

lemma census_updatePopulationStatistics: "stays same_census (updatePopulationStatistics i)"
  unfolding updatePopulationStatistics_def
  by (intro census_rules census_prims census_modify_population) simp_all

lemma census_check_population: "stays same_census (check_population i)"
  unfolding check_population_def
  by (intro census_rules census_prims census_modify_engine) simp_all

lemma census_checkForEmergence: "stays same_census checkForEmergence"
  unfolding checkForEmergence_def
  by (intro census_rules census_check_population)

lemma paced_cycle_population: "i < n \<Longrightarrow> stays (paced n) (cycle_population i)"
  unfolding cycle_population_def
  by (intro paced_rules paced_performSelection paced_performBreeding
        paced_census [OF census_updatePopulationStatistics]
        paced_census [OF census_modify_population]) simp_all


lemma census_finish_cycle: "stays same_census finish_cycle"
  unfolding finish_cycle_def
  by (intro census_rules census_prims census_checkForEmergence census_modify_engine) simp_all

lemma paced_cycle_loop:
  "stays (paced n) (foldM (\<lambda>i _. cycle_population i) [0..<n] ())"
  by (rule stays_foldM [OF reflp_paced transp_paced]) (simp add: paced_cycle_population)

lemma advances_evolutionCycle: "stays advances evolutionCycle"
proof (rule staysI)
  fix w r w'
  assume "evolutionCycle w = Some (r, w')"
  then have "bnd (foldM (\<lambda>i _. cycle_population i) [0..<length (populations (engine w))] ())
     (\<lambda>_. finish_cycle) w = Some (r, w')"
    by (simp add: evolutionCycle_def bnd_reading)
  then show "advances w w'"
  proof (cases rule: bnd_runE)
    case (returned x w1)
    from staysD [OF paced_cycle_loop returned(1)] have "advances w w1" by (simp add: paced_def)
    moreover from staysD [OF census_finish_cycle returned(2)] have "advances w1 w'"
      by (intro grows_advances census_grows)
    ultimately show ?thesis using transp_advances by (meson transpE)
  next
    case (threw e)
    from staysD [OF paced_cycle_loop threw(1)] show ?thesis by (simp add: paced_def)
  qed
qed

section \<open>Every call keeps the invariants\<close>

lemma createKernel_apply:
  "createKernel template custom w =
     Some (Value (kernel_next w),
       w\<lparr>host := (host w)\<lparr>clock_calls := clock_calls (host w) + 3,
                            random_calls := random_calls (host w) + 1\<rparr>,
         kernel_heap := (kernel_heap w)(kernel_next w :=
           founder_kernel template
             (''kernel-'' @ decimal (clock (host w) (clock_calls (host w))) @ ''-'' @
                slice 2 8 (radix36_text (host w) (randoms (host w) (random_calls (host w)))))
             ((template_genome template custom)
                \<lparr>checksum := genome_checksum (number_text (host w)) (gene_heap w)
                               (template_genome template custom)\<rparr>)
             (clock (host w) (clock_calls (host w) + 1))),
         kernel_next := kernel_next w + 1,
         engine := (engine w)\<lparr>totalKernelsCreated := totalKernelsCreated (engine w) + 1\<rparr>,
         emitted := emitted w @
           [\<lparr>event_type = kernel_created,
             event_timestamp = clock (host w) (clock_calls (host w) + 2),
             event_data = KernelData (kernel_next w)\<rparr>]\<rparr>)"
  by (simp add: createKernel_def step_simps more_step_simps calculateChecksum_def Let_def)

lemma founders_result:
  assumes "foldM (\<lambda>_ ks. bnd (createKernel t c) (\<lambda>a. ret (ks @ [a]))) xs acc w = Some (r, w')"
  shows "grows w w' \<and> (\<exists>new. r = Value (acc @ new) \<and>
           (\<forall>a \<in> set new. kernel_next w \<le> a \<and> a < kernel_next w'))"
  using assms
proof (induction xs arbitrary: acc w)
  case Nil
  then show ?case using reflp_grows by (auto simp: ret_apply reflp_def)
next
  case (Cons x xs)
  obtain w1 where w1: "createKernel t c w = Some (Value (kernel_next w), w1)"
    and n1: "kernel_next w1 = kernel_next w + 1"
    by (simp add: createKernel_apply)
  have g1: "grows w w1" by (rule staysD [OF grows_createKernel w1])
  have step: "bnd (createKernel t c) (\<lambda>a. ret (acc @ [a])) w =
      Some (Value (acc @ [kernel_next w]), w1)"
    by (simp add: bnd_value [where m = "createKernel t c", OF w1] ret_apply)
  from Cons.prems
  have "foldM (\<lambda>_ ks. bnd (createKernel t c) (\<lambda>a. ret (ks @ [a]))) xs (acc @ [kernel_next w]) w1
      = Some (r, w')"
    by (simp add: bnd_value [where m = "bnd (createKernel t c) (\<lambda>a. ret (acc @ [a]))", OF step])
  from Cons.IH [OF this] obtain new where
    g2: "grows w1 w'" and new: "r = Value ((acc @ [kernel_next w]) @ new)"
      "\<forall>a \<in> set new. kernel_next w1 \<le> a \<and> a < kernel_next w'"
    by blast
  from g1 g2 have "grows w w'" using transp_grows by (meson transpE)
  moreover from g2 have "kernel_next w1 \<le> kernel_next w'" by (simp add: grows_def)
  ultimately show ?case using new n1
    by (intro conjI exI [of _ "kernel_next w # new"]) auto
qed


lemma enlist_sound:
  assumes "sound w" "grows w w1" "\<forall>c \<in> set (kernels p). kernel_next w \<le> c \<and> c < kernel_next w1"
  shows "sound (w1\<lparr>engine := (engine w1)\<lparr>populations := populations (engine w1) @ [p]\<rparr>\<rparr>)"
proof -
  let ?w = "w1\<lparr>engine := (engine w1)\<lparr>populations := populations (engine w1) @ [p]\<rparr>\<rparr>"
  have s1: "sound w1" using assms(1,2) by (rule grows_sound [rotated])
  have r: "rosters ?w = rosters w1 @ [kernels p]" by (simp add: rosters_def)
  have old: "\<And>ks a. ks \<in> set (rosters w1) \<Longrightarrow> a \<in> set ks \<Longrightarrow> a < kernel_next w"
    using assms(1,2) by (auto simp: sound_def grows_def)
  have arch: "\<And>a. a \<in> set (archive (engine w1)) \<Longrightarrow> a < kernel_next w"
    using assms(1,2) by (auto simp: sound_def grows_def)
  have born: "\<And>c. c \<in> set (kernels p) \<Longrightarrow> kernel_state (kernel_heap w1 c) \<noteq> ARCHIVED"
    using assms(2,3) by (auto simp: grows_def newborn_def)
  have a1: "\<forall>a \<in> set (archive (engine ?w)). a < kernel_next ?w"
    using s1 by (simp add: sound_def)
  have a2: "\<forall>ks \<in> set (rosters ?w). \<forall>a \<in> set ks.
         a < kernel_next ?w \<and> kernel_state (kernel_heap ?w a) \<noteq> ARCHIVED \<and>
         a \<notin> set (archive (engine ?w))"
    unfolding r using s1 assms(3) born arch by (fastforce simp: sound_def)
  have a3: "\<forall>j < length (rosters ?w). \<forall>k < length (rosters ?w).
         j \<noteq> k \<longrightarrow> set (rosters ?w ! j) \<inter> set (rosters ?w ! k) = {}"
  proof (intro allI impI)
    fix j k assume jk: "j < length (rosters ?w)" "k < length (rosters ?w)" "j \<noteq> k"
    have d: "set (rosters w1 ! m) \<inter> set (kernels p) = {}" if "m < length (rosters w1)" for m
    proof -
      from that have "rosters w1 ! m \<in> set (rosters w1)" by simp
      from old [OF this] assms(3) show ?thesis by (fastforce simp: disjoint_iff)
    qed
    show "set (rosters ?w ! j) \<inter> set (rosters ?w ! k) = {}"
    proof (cases "j < length (rosters w1)")
      case True
      show ?thesis
      proof (cases "k < length (rosters w1)")
        case k: True
        with True jk(3) s1 show ?thesis by (simp add: r nth_append sound_def)
      next
        case False
        with jk(2) have "k = length (rosters w1)" by (simp add: r)
        with True d [of j] show ?thesis by (simp add: r nth_append)
      qed
    next
      case False
      with jk(1) have j: "j = length (rosters w1)" by (simp add: r)
      with jk have "k < length (rosters w1)" by (simp add: r)
      with j d [of k] show ?thesis by (auto simp: r nth_append)
    qed
  qed
  from a1 a2 a3 show ?thesis by (simp add: sound_def)
qed


lemma advances_initialize_population: "stays advances (initialize_population ty)"
proof (rule staysI)
  fix w r w'
  assume run: "initialize_population ty w = Some (r, w')"
  let ?p = "\<lparr>population_id = ''pop-'' @ type_text ty,
             population_name = type_text ty,
             population_generation = 0,
             kernels = [],
             statistics = empty_statistics,
             selectionPressure_of = selectionPressure (config (engine w)),
             mutationRate_of = baseMutationRate (config (engine w)),
             capacity = \<lfloor>populationCapacity (config (engine w)) / 4\<rfloor>\<rparr>"
  let ?founders = "case List.find (\<lambda>t. template_type t = ty) KERNEL_TEMPLATES of
            None \<Rightarrow> ret []
          | Some template \<Rightarrow>
              foldM (\<lambda>_ ks. bnd (createKernel template None) (\<lambda>a. ret (ks @ [a]))) [0..<5] []"
  from run have "bnd ?founders (\<lambda>ks.
     modify (\<lambda>w. w\<lparr>engine := (engine w)\<lparr>populations := populations (engine w) @
       [?p\<lparr>kernels := ks, statistics := (statistics ?p)\<lparr>totalCreated := length ks\<rparr>\<rparr>]\<rparr>\<rparr>)) w
     = Some (r, w')"
    by (simp add: initialize_population_def bnd_reading)
  then show "advances w w'"
  proof (cases rule: bnd_runE)
    case (returned ks w1)
    have f: "grows w w1 \<and> (\<forall>a \<in> set ks. kernel_next w \<le> a \<and> a < kernel_next w1)"
    proof (cases "List.find (\<lambda>t. template_type t = ty) KERNEL_TEMPLATES")
      case None
      with returned(1) show ?thesis using reflp_grows by (auto simp: ret_apply reflp_def)
    next
      case (Some t)
      with returned(1) founders_result [of t None "[0..<5]" "[]" w "Value ks" w1]
      show ?thesis by auto
    qed
    from returned(2) have w': "w' = w1\<lparr>engine := (engine w1)\<lparr>populations := populations (engine w1) @
       [?p\<lparr>kernels := ks, statistics := (statistics ?p)\<lparr>totalCreated := length ks\<rparr>\<rparr>]\<rparr>\<rparr>"
      by (simp add: modify_apply)
    have "sound w \<Longrightarrow> sound w'"
      unfolding w' using f by (intro enlist_sound [of w]) simp_all
    moreover have "evolves w w'"
      using grows_evolves [of w w1] f by (simp add: evolves_def w')
    moreover have "set (archive (engine w)) \<subseteq> set (archive (engine w'))"
      using f by (simp add: grows_def w')
    ultimately show ?thesis by (simp add: advances_def)
  next
    case (threw e)
    have "stays grows ?founders"
      by (intro grows_rules grows_createKernel)
    from staysD [OF this threw(1)] show ?thesis by (rule grows_advances)
  qed
qed

lemmas advances_rules =
  stays_bnd [OF transp_advances] stays_foldM [OF reflp_advances transp_advances]
  stays_ret [OF reflp_advances] stays_throw [OF reflp_advances]
  stays_reading [OF reflp_advances] stays_if stays_case_prod stays_case_option
  stays_case_list stays_let

lemma census_advances: "same_census w w' \<Longrightarrow> advances w w'"
  by (intro grows_advances census_grows)

lemma advances_census: "stays same_census m \<Longrightarrow> stays advances m"
  by (erule stays_mono) (rule census_advances)

lemma advances_grows: "stays grows m \<Longrightarrow> stays advances m"
  by (erule stays_mono) (rule grows_advances)

lemma census_modify_world:
  assumes "\<And>w. census (f w) = census w"
  shows "stays same_census (modify f)"
  by (rule stays_modify) (simp add: same_census_def assms)

lemma advances_initializePopulations: "stays advances initializePopulations"
  unfolding initializePopulations_def
  by (intro advances_rules advances_initialize_population)

lemma advances_startEvolution: "stays advances startEvolution"
  unfolding startEvolution_def
  by (intro advances_rules advances_initializePopulations
        advances_census [OF census_modify_world])
     (simp_all add: census_def)

lemma census_stopEvolution: "stays same_census stopEvolution"
  unfolding stopEvolution_def
  by (intro census_rules census_modify_world) (simp_all add: census_def)

lemma advances_update_kernel:
  assumes "\<And>k. fitness (f k) = fitness k"
    and "\<And>k. kernel_state k \<noteq> ARCHIVED \<Longrightarrow> kernel_state (f k) \<noteq> ARCHIVED"
  shows "advances w (update_kernel a f w)"
  using assms
  by (auto simp: advances_def sound_def evolves_def rosters_def)

lemma advances_activateKernel: "stays advances (activateKernel kernelId)"
  unfolding activateKernel_def
  by (intro advances_rules advances_census [OF census_date_now]
        advances_census [OF census_emitEvent] stays_modify advances_update_kernel)
     simp_all

lemma advances_deprecateKernel: "stays advances (deprecateKernel kernelId)"
  unfolding deprecateKernel_def
  by (intro advances_rules advances_census [OF census_emitEvent] stays_modify
        advances_update_kernel)
     simp_all


lemma progress_mono: "progress u w w' \<Longrightarrow> (v \<Longrightarrow> u) \<Longrightarrow> progress v w w'"
  by (auto simp: progress_def)

lemmas progress_rules =
  stays_bnd [OF transp_progress] stays_foldM [OF reflp_progress transp_progress]
  stays_ret [OF reflp_progress] stays_throw [OF reflp_progress]
  stays_reading [OF reflp_progress] stays_if stays_case_prod stays_case_option
  stays_case_list stays_let

lemma progress_advances: "stays advances m \<Longrightarrow> stays (progress u) m"
  by (erule stays_mono) (rule advances_progress)

lemma progress_census: "stays same_census m \<Longrightarrow> stays (progress u) m"
  by (intro progress_advances advances_census)

lemma scored_weighted: "overall (scored scores f) = calculateOverallFitness (scored scores f)"
  by (simp add: scored_def Let_def calculateOverallFitness_def split: option.splits)

lemma unit_weighted_sum:
  fixes p e r a i :: real
  assumes "0 \<le> p" "p \<le> 1" "0 \<le> e" "e \<le> 1" "0 \<le> r" "r \<le> 1" "0 \<le> a" "a \<le> 1" "0 \<le> i" "i \<le> 1"
  shows "0 \<le> p * 0.3 + e * 0.2 + r * 0.2 + a * 0.15 + i * 0.15"
    and "p * 0.3 + e * 0.2 + r * 0.2 + a * 0.15 + i * 0.15 \<le> 1"
  using assms by simp_all


lemma scored_components:
  "performance (scored scores f) = or_else (given_performance scores) (performance f)"
  "efficiency (scored scores f) = or_else (given_efficiency scores) (efficiency f)"
  "reliability (scored scores f) = or_else (given_reliability scores) (reliability f)"
  "adaptability (scored scores f) = or_else (given_adaptability scores) (adaptability f)"
  "innovation (scored scores f) = or_else (given_innovation scores) (innovation f)"
  "evaluations (scored scores f) = evaluations f + 1"
  "lastEvaluated (scored scores f) = lastEvaluated f"
  by (simp_all add: scored_def Let_def or_else_def split: option.splits)

lemma or_else_unit: "in_unit v \<Longrightarrow> 0 \<le> x \<Longrightarrow> x \<le> 1 \<Longrightarrow> 0 \<le> or_else v x \<and> or_else v x \<le> 1"
  by (simp add: or_else_def in_unit_def split: option.splits)

lemma scored_unit:
  assumes "unit_given scores" "unit_scores f"
  shows "unit_scores (scored scores f)"
proof -
  have p: "0 \<le> performance (scored scores f) \<and> performance (scored scores f) \<le> 1"
    and e: "0 \<le> efficiency (scored scores f) \<and> efficiency (scored scores f) \<le> 1"
    and r: "0 \<le> reliability (scored scores f) \<and> reliability (scored scores f) \<le> 1"
    and a: "0 \<le> adaptability (scored scores f) \<and> adaptability (scored scores f) \<le> 1"
    and i: "0 \<le> innovation (scored scores f) \<and> innovation (scored scores f) \<le> 1"
    using assms by (simp_all add: scored_components unit_given_def unit_scores_def or_else_unit)
  have "0 \<le> overall (scored scores f) \<and> overall (scored scores f) \<le> 1"
    unfolding scored_weighted calculateOverallFitness_def
    using unit_weighted_sum [of "performance (scored scores f)" "efficiency (scored scores f)"
      "reliability (scored scores f)" "adaptability (scored scores f)" "innovation (scored scores f)"]
      p e r a i by blast
  with p e r a i show ?thesis by (simp add: unit_scores_def)
qed

lemma progress_update_fitness:
  assumes "\<And>k. kernel_state (f k) = kernel_state k"
    and "\<And>k. overall (fitness k) = calculateOverallFitness (fitness k) \<Longrightarrow>
           overall (fitness (f k)) = calculateOverallFitness (fitness (f k))"
    and "\<And>k. u \<Longrightarrow> unit_scores (fitness k) \<Longrightarrow> unit_scores (fitness (f k))"
  shows "progress u w (update_kernel a f w)"
proof -
  have "sound w \<Longrightarrow> sound (update_kernel a f w)"
    using assms(1) by (auto simp: sound_def rosters_def)
  moreover have "weighted w \<Longrightarrow> weighted (update_kernel a f w)"
    using assms(2) by (auto simp: weighted_def)
  moreover have "u \<Longrightarrow> bounded w \<Longrightarrow> bounded (update_kernel a f w)"
    using assms(3) by (auto simp: bounded_def)
  ultimately show ?thesis by (simp add: progress_def)
qed

lemma progress_store_scores:
  "progress (unit_given scores) w
     (update_kernel a (\<lambda>k. k\<lparr>fitness := scored scores (fitness k)\<rparr>) w)"
  by (rule progress_update_fitness) (simp_all add: scored_unit scored_weighted [symmetric])

lemma progress_stamp:
  "progress u w (update_kernel a (\<lambda>k. k\<lparr>fitness := (fitness k)\<lparr>lastEvaluated := t\<rparr>\<rparr>) w)"
  by (rule progress_update_fitness)
     (simp_all add: calculateOverallFitness_def unit_scores_def)

lemma progress_evaluateFitness:
  "stays (progress (unit_given scores)) (evaluateFitness kernelId scores)"
  unfolding evaluateFitness_def
  by (intro progress_rules progress_census [OF census_date_now] stays_modify
        progress_store_scores progress_stamp)

lemma perform_progress:
  assumes "perform c w = Some w'"
  shows "progress (unit_call c) w w'"
proof -
  have run: "progress u w w'" if "stays (progress u) m" "world_after m w = Some w'"
    for u and m :: "'a M"
    using that by (auto simp: world_after_def stays_def)
  show ?thesis
  proof (cases c)
    case StartEvolution
    with assms show ?thesis
      by (auto simp: perform_def intro!: run [OF progress_advances [OF advances_startEvolution]])
  next
    case StopEvolution
    with assms show ?thesis
      by (auto simp: perform_def intro!: run [OF progress_census [OF census_stopEvolution]])
  next
    case TimerTick
    with assms show ?thesis using reflp_progress [of "unit_call c"]
      by (auto simp: perform_def reflp_def split: if_splits
          intro!: run [OF progress_advances [OF advances_evolutionCycle]])
  next
    case (NewGene g)
    with assms show ?thesis
      by (auto simp: perform_def intro!: run [OF progress_census [OF census_alloc_gene]])
  next
    case (CreateKernel t g)
    with assms show ?thesis
      by (auto simp: perform_def
          intro!: run [OF progress_advances [OF advances_grows [OF grows_createKernel]]])
  next
    case (Breed r)
    with assms show ?thesis
      by (auto simp: perform_def
          intro!: run [OF progress_advances [OF advances_grows [OF grows_breed]]])
  next
    case (EvaluateFitness i s)
    with assms show ?thesis
      by (auto simp: perform_def unit_call_def intro!: run [OF progress_evaluateFitness])
  next
    case (ActivateKernel i)
    with assms show ?thesis
      by (auto simp: perform_def intro!: run [OF progress_advances [OF advances_activateKernel]])
  next
    case (DeprecateKernel i)
    with assms show ?thesis
      by (auto simp: perform_def intro!: run [OF progress_advances [OF advances_deprecateKernel]])
  qed
qed

lemma run_progress:
  "run cs w = Some w' \<Longrightarrow> progress (\<forall>c \<in> set cs. unit_call c) w w'"
proof (induction cs arbitrary: w)
  case Nil
  then show ?case using reflp_progress by (simp add: reflp_def)
next
  case (Cons c cs)
  then obtain w1 where w1: "perform c w = Some w1" "run cs w1 = Some w'"
    by (auto split: option.splits)
  have "progress (\<forall>c \<in> set (c # cs). unit_call c) w w1"
    by (rule progress_mono [OF perform_progress [OF w1(1)]]) simp
  moreover have "progress (\<forall>c \<in> set (c # cs). unit_call c) w1 w'"
    by (rule progress_mono [OF Cons.IH [OF w1(2)]]) simp
  ultimately show ?case using transp_progress by (meson transpE)
qed

lemma new_service_sound: "sound (new_service cfg h)"
  by (simp add: sound_def new_service_def createInitialState_def rosters_def)



lemma reachable_sound: "run cs (new_service cfg h) = Some w \<Longrightarrow> sound w"
  using run_progress [of cs "new_service cfg h" w] new_service_sound
  by (simp add: progress_def)

section \<open>A started service\<close>

lemmas eval_simps = bnd_apply run_then_simps ret_apply throw_apply reading_apply modify_apply
  date_now_apply math_random_apply emitEvent_apply createKernel_apply

lemma upt5: "[0..<5] = [0, 1, 2, 3, 4]"
  by (simp add: upt_rec)

lemma upt20:
  "[0..<20] = [0, 1, 2, 3, 4, 5, 6, 7, 8, 9, 10, 11, 12, 13, 14, 15, 16, 17, 18, 19]"
  by (simp add: upt_rec)

lemma kernel_template_fields [simp]:
  "template_name (kernel_template n t core) = n"
  "template_type (kernel_template n t core) = t"
  "template_genome (kernel_template n t core) None =
     \<lparr>coreGenes = core, regulatoryGenes = [], expressionModifiers = [], checksum = []\<rparr>"
  by (simp_all add: kernel_template_def template_genome_def or_empty_def)

lemmas run_defs = perform_def world_after_def startEvolution_def initializePopulations_def
  initialize_population_def KERNEL_TEMPLATES_def
  new_service_def createInitialState_def

lemma run_started: "run [StartEvolution] (new_service cfg sample_host) = Some (started cfg)"
  by (simp add: run_defs eval_simps upt5 upt20 text_simps started_def seed_kernel_def
       seed_event_def seed_population_def empty_statistics_def type_text_def Let_def
       del: One_nat_def cong: run_then_cong bnd_weak_cong)

lemma started_fields [simp]:
  "populations (engine (started cfg)) =
     [seed_population cfg inference [0, 1, 2, 3, 4],
      seed_population cfg reasoning [5, 6, 7, 8, 9],
      seed_population cfg memory [10, 11, 12, 13, 14],
      seed_population cfg meta [15, 16, 17, 18, 19]]"
  "archive (engine (started cfg)) = []"
  "config (engine (started cfg)) = cfg"
  "kernel_next (started cfg) = 20"
  "evolutionInterval (started cfg) = True"
  "kernel_heap (started cfg) 0 = seed_kernel 0"
  by (simp_all add: started_def upt20 del: One_nat_def)

lemma seed_population_fields [simp]:
  "kernels (seed_population cfg ty ks) = ks"
  "capacity (seed_population cfg ty ks) = \<lfloor>populationCapacity cfg / 4\<rfloor>"
  "statistics (seed_population cfg ty ks) = empty_statistics\<lparr>totalCreated := 5\<rparr>"
  "population_id (seed_population cfg ty ks) = ''pop-'' @ type_text ty"
  "population_name (seed_population cfg ty ks) = type_text ty"
  by (simp_all add: seed_population_def)

lemma seed_kernel_fields [simp]:
  "fitness (seed_kernel n) = createInitialFitness"
  "kernel_state (seed_kernel n) = DORMANT"
  "kernel_id (seed_kernel n) = ''kernel-'' @ decimal (1700000000000 + 3 * n) @ ''-i''"
  by (simp_all add: seed_kernel_def Let_def)

lemma fold_fun_upd_upt:
  "fold (\<lambda>n h. h(n := f n)) [0..<m] g a = (if a < m then f a else g a)"
  by (induction m) (auto simp: less_Suc_eq)

lemma started_heap [simp]: "a < 20 \<Longrightarrow> kernel_heap (started cfg) a = seed_kernel a"
  by (simp add: started_def fold_fun_upd_upt)

lemma started_host [simp]:
  "host (started cfg) = sample_host\<lparr>random_calls := 20, clock_calls := 60\<rparr>"
  "emitted (started cfg) = map seed_event [0..<20]"
  by (simp_all add: started_def)

lemma perform_started:
  "perform StartEvolution (new_service cfg sample_host) = Some (started cfg)"
  using run_started [of cfg] by (simp split: option.splits)

lemma run_from_started:
  "run (StartEvolution # cs) (new_service cfg sample_host) = run cs (started cfg)"
  by (simp add: perform_started)

lemmas call_defs = perform_def world_after_def evaluateFitness_def activateKernel_def
  deprecateKernel_def findKernel_def find_by_id_def scored_def uniform_scores_def
  calculateOverallFitness_def

lemmas world_defs = text_simps quiet_config_def DEFAULT_EVOLUTION_CONFIG_def
  createInitialFitness_def empty_statistics_def rosters_def Let_def

text \<open>After \<open>cull_calls\<close> every kernel of the first population is under the archive threshold.\<close>

lemma culled:
  "case run cull_calls (new_service DEFAULT_EVOLUTION_CONFIG sample_host) of
     None \<Rightarrow> False
   | Some w \<Rightarrow> evolutionInterval w \<and> populations (engine w) \<noteq> [] \<and>
       kernels (populations (engine w) ! 0) = [0, 1, 2, 3, 4] \<and>
       archive (engine w) = [] \<and>
       below_threshold w 0 \<and> below_threshold w 1 \<and> below_threshold w 2 \<and>
       below_threshold w 3 \<and> below_threshold w 4 \<and>
       0 < capacity (populations (engine w) ! 0)"
  unfolding cull_calls_def run_from_started
  by (simp add: call_defs eval_simps world_defs update_kernel_def
      below_threshold_def del: One_nat_def cong: run_then_cong bnd_weak_cong)

section \<open>Breeding with no resolvable parent\<close>

text \<open>
  C7. When none of the parent ids of a breeding request resolves to a kernel (neither in
  a population nor in the archive), \<^verbatim>\<open>breed\<close> returns the result with no offspring and
  zero counts, throws nothing, and leaves the whole world as it was: no counter is
  incremented, populations and archive are untouched, no event is emitted.
\<close>

theorem breed_no_parent_resolves:
  assumes "\<forall>i \<in> set (request_parents request). findKernel w i = None"
  shows "breed request w =
     Some (Value \<lparr>offspring = [], successRate = 0, mutationsApplied = 0, novelGenes = 0\<rparr>, w)"
proof -
  have "List.map_filter (findKernel w) (request_parents request) = []"
    using assms by (simp add: map_filter_def filter_empty_conv)
  then show ?thesis
    by (simp add: breed_def bnd_reading ret_apply no_offspring_def)
qed

theorem breed_no_parent_resolves_witness:
  "breed \<lparr>request_parents = [''kernel-1-aaaaaa'', ''kernel-2-bbbbbb''], request_method = crossover,
          request_mutationRate = None, offspringCount = 3\<rparr>
     (sample_world [sample_kernel ''kernel-0-i'' DORMANT 0.5 0] 5) =
   Some (Value \<lparr>offspring = [], successRate = 0, mutationsApplied = 0, novelGenes = 0\<rparr>,
     sample_world [sample_kernel ''kernel-0-i'' DORMANT 0.5 0] 5)"
  by (rule breed_no_parent_resolves)
     (simp add: findKernel_def find_by_id_def sample_simps)

section \<open>Activating an archived kernel\<close>

lemma find_by_id_none:
  "\<forall>b \<in> set refs. kernel_id (kernel_heap w b) \<noteq> i \<Longrightarrow> find_by_id w refs i = None"
  by (simp add: find_by_id_def find_None_iff)

lemma find_in_populations_none:
  "\<forall>p \<in> set ps. \<forall>b \<in> set (kernels p). kernel_id (kernel_heap w b) \<noteq> i \<Longrightarrow>
   find_in_populations w ps i = None"
  by (induction ps) (simp_all add: find_by_id_none)

lemma find_by_id_unique:
  assumes "a \<in> set refs"
    and "\<forall>b \<in> set refs. kernel_id (kernel_heap w b) = kernel_id (kernel_heap w a) \<longrightarrow> b = a"
  shows "find_by_id w refs (kernel_id (kernel_heap w a)) = Some a"
  using assms unfolding find_by_id_def
  by (induction refs) auto

text \<open>
  \<^verbatim>\<open>findKernel\<close> resolves the id of an archived kernel to that kernel when no kernel of a
  population and no other kernel of the archive carries the same id.
\<close>

lemma findKernel_archived:
  assumes "a \<in> set (archive (engine w))"
    and "\<forall>p \<in> set (populations (engine w)). \<forall>b \<in> set (kernels p).
           kernel_id (kernel_heap w b) \<noteq> kernel_id (kernel_heap w a)"
    and "\<forall>b \<in> set (archive (engine w)).
           kernel_id (kernel_heap w b) = kernel_id (kernel_heap w a) \<longrightarrow> b = a"
  shows "findKernel w (kernel_id (kernel_heap w a)) = Some a"
  using assms by (simp add: findKernel_def find_in_populations_none find_by_id_unique)

text \<open>
  Two kernels may carry the same id: ids are made of the clock reading and six digits
  of a random number, and nothing checks that they are new. In this small world the
  kernel object 1 is in the archive, ARCHIVED, and in no population; the kernel object 0
  of the population has the same id. \<^verbatim>\<open>activateKernel\<close> of that id returns true, but
  \<^verbatim>\<open>findKernel\<close> has found the kernel of the population: the archived kernel is still
  ARCHIVED and its \<^verbatim>\<open>lastActivated\<close> is still 0. The last section has a run of the
  service that ends in such a world.
\<close>

lemma activateKernel_shadowed:
  "archive (engine (sample_world [sample_kernel ''kernel-7-i'' DORMANT 0.5 0,
                                  sample_kernel ''kernel-7-i'' ARCHIVED 0.1 2] 5)) = [1] \<and>
   rosters (sample_world [sample_kernel ''kernel-7-i'' DORMANT 0.5 0,
                          sample_kernel ''kernel-7-i'' ARCHIVED 0.1 2] 5) = [[0]] \<and>
   kernel_state (kernel_heap (sample_world [sample_kernel ''kernel-7-i'' DORMANT 0.5 0,
                          sample_kernel ''kernel-7-i'' ARCHIVED 0.1 2] 5) 1) = ARCHIVED \<and>
   kernel_id (kernel_heap (sample_world [sample_kernel ''kernel-7-i'' DORMANT 0.5 0,
                          sample_kernel ''kernel-7-i'' ARCHIVED 0.1 2] 5) 1) = ''kernel-7-i'' \<and>
   (\<exists>w'. activateKernel ''kernel-7-i''
            (sample_world [sample_kernel ''kernel-7-i'' DORMANT 0.5 0,
                           sample_kernel ''kernel-7-i'' ARCHIVED 0.1 2] 5) = Some (Value True, w') \<and>
      kernel_state (kernel_heap w' 1) = ARCHIVED \<and>
      lastActivated (kernel_heap w' 1) = 0 \<and>
      kernel_state (kernel_heap w' 0) = ACTIVE)"
  by (simp add: activateKernel_def step_simps update_kernel_def findKernel_def find_by_id_def
      rosters_def sample_simps)

text \<open>
  C10, amended. \<^verbatim>\<open>activateKernel\<close> succeeds on an archived kernel whose id is its own: if
  the kernel object \<open>a\<close> is in the archive, its state is ARCHIVED, no kernel of a
  population carries its id and no other kernel of the archive carries its id, then
  \<^verbatim>\<open>activateKernel\<close> of its id returns true, sets its state to ACTIVE and its
  \<^verbatim>\<open>lastActivated\<close> to the clock reading, and leaves the archive and the populations as
  they were, so the kernel is still in the archive and in no population.
  \<^verbatim>\<open>activateKernel\<close> always returns, and it returns false exactly when the id is unknown
  or the kernel found is DEPRECATED.
\<close>

theorem activateKernel_archived_unique:
  "(a \<in> set (archive (engine w)) \<and>
    kernel_state (kernel_heap w a) = ARCHIVED \<and>
    (\<forall>p \<in> set (populations (engine w)). \<forall>b \<in> set (kernels p).
       kernel_id (kernel_heap w b) \<noteq> kernel_id (kernel_heap w a)) \<and>
    (\<forall>b \<in> set (archive (engine w)).
       kernel_id (kernel_heap w b) = kernel_id (kernel_heap w a) \<longrightarrow> b = a) \<longrightarrow>
      (\<exists>w'. activateKernel (kernel_id (kernel_heap w a)) w = Some (Value True, w') \<and>
         kernel_state (kernel_heap w' a) = ACTIVE \<and>
         lastActivated (kernel_heap w' a) = clock (host w) (clock_calls (host w)) \<and>
         archive (engine w') = archive (engine w) \<and>
         populations (engine w') = populations (engine w) \<and>
         a \<in> set (archive (engine w')) \<and>
         (\<forall>p \<in> set (populations (engine w')). a \<notin> set (kernels p)))) \<and>
   (\<exists>b w'. activateKernel kernelId w = Some (Value b, w') \<and>
      (b = False \<longleftrightarrow>
         findKernel w kernelId = None \<or>
         (\<exists>k. findKernel w kernelId = Some k \<and> kernel_state (kernel_heap w k) = DEPRECATED)))"
proof (intro conjI impI)
  assume h: "a \<in> set (archive (engine w)) \<and>
    kernel_state (kernel_heap w a) = ARCHIVED \<and>
    (\<forall>p \<in> set (populations (engine w)). \<forall>b \<in> set (kernels p).
       kernel_id (kernel_heap w b) \<noteq> kernel_id (kernel_heap w a)) \<and>
    (\<forall>b \<in> set (archive (engine w)).
       kernel_id (kernel_heap w b) = kernel_id (kernel_heap w a) \<longrightarrow> b = a)"
  then have f: "findKernel w (kernel_id (kernel_heap w a)) = Some a"
    by (intro findKernel_archived) simp_all
  from h have out: "\<forall>p \<in> set (populations (engine w)). a \<notin> set (kernels p)" by blast
  from h f out
  show "\<exists>w'. activateKernel (kernel_id (kernel_heap w a)) w = Some (Value True, w') \<and>
         kernel_state (kernel_heap w' a) = ACTIVE \<and>
         lastActivated (kernel_heap w' a) = clock (host w) (clock_calls (host w)) \<and>
         archive (engine w') = archive (engine w) \<and>
         populations (engine w') = populations (engine w) \<and>
         a \<in> set (archive (engine w')) \<and>
         (\<forall>p \<in> set (populations (engine w')). a \<notin> set (kernels p))"
    by (simp add: activateKernel_def step_simps update_kernel_def)
next
  show "\<exists>b w'. activateKernel kernelId w = Some (Value b, w') \<and>
      (b = False \<longleftrightarrow>
         findKernel w kernelId = None \<or>
         (\<exists>k. findKernel w kernelId = Some k \<and> kernel_state (kernel_heap w k) = DEPRECATED))"
    by (auto simp add: activateKernel_def step_simps update_kernel_def split: option.splits)
qed

theorem activateKernel_archived_unique_witness:
  "activateKernel ''kernel-7-i''
     (sample_world [sample_kernel ''kernel-3-i'' DORMANT 0.5 0,
                    sample_kernel ''kernel-7-i'' ARCHIVED 0.1 2] 5) =
   Some (Value True,
     update_kernel 1 (\<lambda>k. k\<lparr>kernel_state := ACTIVE, lastActivated := 1700000000000\<rparr>)
       ((sample_world [sample_kernel ''kernel-3-i'' DORMANT 0.5 0,
                       sample_kernel ''kernel-7-i'' ARCHIVED 0.1 2] 5)
          \<lparr>host := sample_host\<lparr>clock_calls := 2\<rparr>,
           emitted := [\<lparr>event_type = kernel_activated, event_timestamp = 1700000000001,
                        event_data = KernelIdData ''kernel-7-i''\<rparr>]\<rparr>))"
  using activateKernel_archived_unique
    [of 1 "sample_world [sample_kernel ''kernel-3-i'' DORMANT 0.5 0,
                         sample_kernel ''kernel-7-i'' ARCHIVED 0.1 2] 5" "''kernel-7-i''"]
  by (simp add: activateKernel_def step_simps update_kernel_def findKernel_def find_by_id_def
      sample_simps)

section \<open>Selection spares unevaluated kernels\<close>

text \<open>
  C3. In every world reachable from a new service, for every population and every kernel
  in it whose \<^verbatim>\<open>fitness.evaluations\<close> is 0, \<^verbatim>\<open>performSelection\<close> on that population does
  not archive the kernel, whatever its \<^verbatim>\<open>fitness.overall\<close>: afterwards the kernel is
  still in the population's kernel list, its state is unchanged, and it is not in the
  archive.
\<close>

theorem selection_spares_unevaluated:
  assumes "run cs (new_service cfg h) = Some w"
    and "i < length (populations (engine w))"
    and "a \<in> set (kernels (populations (engine w) ! i))"
    and "evaluations (fitness (kernel_heap w a)) = 0"
  shows "a \<in> set (kernels (populations (engine (performSelection i w)) ! i)) \<and>
         kernel_state (kernel_heap (performSelection i w) a) = kernel_state (kernel_heap w a) \<and>
         a \<notin> set (archive (engine (performSelection i w)))"
proof -
  have s: "sound w" using assms(1) by (rule reachable_sound)
  have ri: "rosters w ! i = kernels (populations (engine w) ! i)"
    and len: "i < length (rosters w)"
    using assms(2) by (simp_all add: rosters_def)
  then have "rosters w ! i \<in> set (rosters w)" by (metis nth_mem)
  with s assms(3) ri have live: "kernel_state (kernel_heap w a) \<noteq> ARCHIVED"
    and out: "a \<notin> set (archive (engine w))"
    by (auto simp: sound_def)
  have spared: "a \<notin> set (toArchive w i)"
    using assms(4) by (simp add: set_toArchive below_threshold_def)
  have "rosters (performSelection i w) ! i =
      filter (\<lambda>a. a \<notin> set (toArchive w i) \<and> kernel_state (kernel_heap w a) \<noteq> ARCHIVED)
        (ranked w i)"
    using len by (simp add: performSelection_rosters)
  moreover have "rosters (performSelection i w) ! i =
      kernels (populations (engine (performSelection i w)) ! i)"
    using assms(2) by (simp add: rosters_def)
  ultimately have "a \<in> set (kernels (populations (engine (performSelection i w)) ! i))"
    using assms(3) spared live by simp
  with spared out show ?thesis
    by (simp add: performSelection_heap performSelection_archive)
qed

theorem selection_spares_unevaluated_witness:
  "overall (fitness (kernel_heap (started strict_config) 0))
     < archiveThreshold (config (engine (started strict_config))) \<and>
   0 \<in> set (kernels (populations (engine (performSelection 0 (started strict_config))) ! 0)) \<and>
   kernel_state (kernel_heap (performSelection 0 (started strict_config)) 0) = DORMANT \<and>
   0 \<notin> set (archive (engine (performSelection 0 (started strict_config))))"
  using selection_spares_unevaluated [OF run_started, of 0 strict_config 0]
  by (simp add: createInitialFitness_def strict_config_def DEFAULT_EVOLUTION_CONFIG_def)

section \<open>The genome checksum\<close>





section \<open>The statistics of a population\<close>

lemma foldl_plus_sum_list: "foldl (\<lambda>s a. s + f a) z xs = (z :: real) + sum_list (map f xs)"
  by (induction xs arbitrary: z) simp_all

lemma maximum_Max: "xs \<noteq> [] \<Longrightarrow> maximum xs = Max (set xs)"
proof (cases xs)
  case Nil
  assume "xs \<noteq> []"
  with Nil show ?thesis by simp
next
  case (Cons x ys)
  then show ?thesis using Max.set_eq_fold [of x ys] by simp
qed

lemma last_twenty:
  "(if length xs > 20 then slice_from (- 20) xs else xs) = drop (length xs - 20) xs"
proof -
  have "nat (int (length xs) - 20) = length xs - 20" by linarith
  then show ?thesis by (simp add: slice_from_def relative_index_def)
qed

text \<open>
  C9, as claimed, fails for the empty population: \<^verbatim>\<open>updatePopulationStatistics\<close> returns
  after setting \<^verbatim>\<open>averageFitness\<close> and \<^verbatim>\<open>bestFitness\<close> to 0. Nothing is appended to
  \<^verbatim>\<open>fitnessTrend\<close> and no event is emitted: on the sample world with an empty population
  (empty trend, no event so far) the world after the call is the world before it.
\<close>

theorem refresh_empty_population:
  "kernels (populations (engine (sample_world [] 5)) ! 0) = [] \<and>
   fitnessTrend (statistics (populations (engine (sample_world [] 5)) ! 0)) = [] \<and>
   emitted (sample_world [] 5) = [] \<and>
   updatePopulationStatistics 0 (sample_world [] 5) = Some (Value (), sample_world [] 5)"
  by (simp add: updatePopulationStatistics_def step_simps update_population_def sample_simps)

text \<open>
  C9, amended. For every population \<^verbatim>\<open>updatePopulationStatistics\<close> returns. If the
  population has kernels, \<^verbatim>\<open>averageFitness\<close> is the mean of their \<^verbatim>\<open>fitness.overall\<close>,
  \<^verbatim>\<open>bestFitness\<close> the greatest, \<^verbatim>\<open>fitnessTrend\<close> the last 20 entries of the old trend with
  the mean appended, \<^verbatim>\<open>diversityIndex\<close> the number of distinct genome checksums over the
  number of kernels, \<^verbatim>\<open>activeCount\<close> the number of ACTIVE kernels, and one
  \<^verbatim>\<open>population-updated\<close> event with the population's id and the new statistics is
  emitted. If the population is empty, \<^verbatim>\<open>averageFitness\<close> and \<^verbatim>\<open>bestFitness\<close> are 0, and
  \<^verbatim>\<open>fitnessTrend\<close>, \<^verbatim>\<open>diversityIndex\<close> and \<^verbatim>\<open>activeCount\<close> are left as they were, and no event
  is emitted.
\<close>

theorem updatePopulationStatistics_result:
  assumes "i < length (populations (engine w))"
  shows "\<exists>w'. updatePopulationStatistics i w = Some (Value (), w') \<and>
     (let p = populations (engine w) ! i;
          ks = kernels p;
          scores = map (\<lambda>a. overall (fitness (kernel_heap w a))) ks;
          st = statistics (populations (engine w') ! i)
      in if ks = []
         then averageFitness st = 0 \<and> bestFitness st = 0 \<and>
              fitnessTrend st = fitnessTrend (statistics p) \<and>
              diversityIndex st = diversityIndex (statistics p) \<and>
              activeCount st = activeCount (statistics p) \<and>
              emitted w' = emitted w
         else averageFitness st = sum_list scores / real (length ks) \<and>
              bestFitness st = Max (set scores) \<and>
              fitnessTrend st =
                drop (length (fitnessTrend (statistics p)) + 1 - 20)
                  (fitnessTrend (statistics p) @ [sum_list scores / real (length ks)]) \<and>
              diversityIndex st =
                real (card (set (map (\<lambda>a. checksum (genome (kernel_heap w a))) ks))) /
                real (length ks) \<and>
              activeCount st =
                length (filter (\<lambda>a. kernel_state (kernel_heap w a) = ACTIVE) ks) \<and>
              emitted w' = emitted w @
                [\<lparr>event_type = population_updated,
                  event_timestamp = clock (host w) (clock_calls (host w)),
                  event_data = PopulationData (population_id p) st\<rparr>])"
proof (cases "kernels (populations (engine w) ! i) = []")
  case True
  with assms show ?thesis
    by (simp add: updatePopulationStatistics_def step_simps update_population_def)
next
  case False
  with assms show ?thesis
    by (simp add: updatePopulationStatistics_def step_simps update_population_def
        refreshed_statistics_def Let_def foldl_plus_sum_list maximum_Max
        length_remdups_card_conv last_twenty del: One_nat_def)
qed

theorem updatePopulationStatistics_result_witness:
  "\<exists>w'. updatePopulationStatistics 0
       (sample_world [sample_kernel ''kernel-1-i'' ACTIVE 0.25 1,
                      sample_kernel ''kernel-2-i'' DORMANT 0.75 1] 5) = Some (Value (), w') \<and>
     statistics (populations (engine w') ! 0) =
       \<lparr>totalCreated = 0, activeCount = 1, archivedCount = 0, averageFitness = 1 / 2,
        bestFitness = 3 / 4, fitnessTrend = [1 / 2], diversityIndex = 1 / 2\<rparr> \<and>
     emitted w' =
       [\<lparr>event_type = population_updated, event_timestamp = 1700000000000,
         event_data = PopulationData ''pop-inference''
           \<lparr>totalCreated = 0, activeCount = 1, archivedCount = 0, averageFitness = 1 / 2,
            bestFitness = 3 / 4, fitnessTrend = [1 / 2], diversityIndex = 1 / 2\<rparr>\<rparr>]"
  using updatePopulationStatistics_result
    [of 0 "sample_world [sample_kernel ''kernel-1-i'' ACTIVE 0.25 1,
                         sample_kernel ''kernel-2-i'' DORMANT 0.75 1] 5"]
  by (simp add: updatePopulationStatistics_def step_simps update_population_def
       refreshed_statistics_def sample_simps Let_def)

section \<open>A population without parents\<close>

lemma pick_elite_empty:
  "pick_elite [] w = Some (Exception TypeError,
     w\<lparr>host := (host w)\<lparr>random_calls := random_calls (host w) + 1\<rparr>\<rparr>)"
  by (simp add: pick_elite_def step_simps element_at_def)

lemma breeding_slot_empty:
  "\<exists>w'. breeding_slot i [] w = Some (Exception TypeError, w')"
  by (simp add: breeding_slot_def choose_method_def choose_parents_def eval_simps
      pick_elite_empty)

text \<open>
  \<^verbatim>\<open>performBreeding\<close> throws when the population needs kernels and its elite slice is
  empty: \<^verbatim>\<open>elite[Math.floor(Math.random() * 0)]\<close> is \<^verbatim>\<open>undefined\<close>, and reading its \<^verbatim>\<open>id\<close>
  is a TypeError.
\<close>

lemma performBreeding_no_elite:
  assumes "elite_of w i = []" and "0 < newKernelsNeeded w i"
  shows "\<exists>w'. performBreeding i w = Some (Exception TypeError, w')"
proof -
  obtain n where n: "newKernelsNeeded w i = Suc n"
    using assms(2) by (cases "newKernelsNeeded w i") simp_all
  obtain w' where "breeding_slot i [] w = Some (Exception TypeError, w')"
    using breeding_slot_empty by blast
  then show ?thesis
    by (simp add: performBreeding_def step_simps assms(1) n upt_rec [of 0] bnd_def del: upt_Suc)
qed

lemma performBreeding_throws:
  assumes "kernels (populations (engine w) ! i) = []"
    and "0 < capacity (populations (engine w) ! i)"
  shows "\<exists>w'. performBreeding i w = Some (Exception TypeError, w')"
  using assms
  by (intro performBreeding_no_elite) (simp_all add: elite_of_def newKernelsNeeded_def slice_def)

lemma selection_empties:
  assumes "i < length (populations (engine w))"
    and "\<forall>a \<in> set (kernels (populations (engine w) ! i)). below_threshold w a"
  shows "kernels (populations (engine (performSelection i w)) ! i) = []"
proof -
  have len: "i < length (rosters w)"
    using assms(1) by (simp add: rosters_def)
  have "rosters (performSelection i w) ! i =
      filter (\<lambda>a. a \<notin> set (toArchive w i) \<and> kernel_state (kernel_heap w a) \<noteq> ARCHIVED)
        (ranked w i)"
    using len by (simp add: performSelection_rosters)
  also have "\<dots> = []"
    using assms(2) by (simp add: filter_empty_conv set_toArchive)
  finally have "rosters (performSelection i w) ! i = []" .
  moreover have "rosters (performSelection i w) ! i =
      kernels (populations (engine (performSelection i w)) ! i)"
    using assms(1) by (simp add: rosters_def)
  ultimately show ?thesis by simp
qed

lemma selection_capacity:
  "i < length (populations (engine w)) \<Longrightarrow>
   capacity (populations (engine (performSelection i w)) ! i) =
     capacity (populations (engine w) ! i)"
  by (simp add: performSelection_def Let_def)

text \<open>
  C1. The claim fails in the code. When the service has a population, every kernel of
  its first population is under the archive threshold and has been evaluated (or the
  population is empty), and the capacity of that population is positive, the evolution
  cycle throws: selection leaves the population empty, \<^verbatim>\<open>performBreeding\<close> needs kernels,
  its elite slice is empty, and \<^verbatim>\<open>elite[Math.floor(Math.random() * elite.length)].id\<close>
  reads \<^verbatim>\<open>id\<close> of \<^verbatim>\<open>undefined\<close>. Nothing catches the TypeError: it leaves \<^verbatim>\<open>evolutionCycle\<close>,
  the call of the interval timer. A run of public calls from a new service with the
  default configuration reaches such a world.
\<close>

theorem evolutionCycle_throws:
  assumes "populations (engine w) \<noteq> []"
    and "\<forall>a \<in> set (kernels (populations (engine w) ! 0)). below_threshold w a"
    and "0 < capacity (populations (engine w) ! 0)"
  shows "\<exists>w'. evolutionCycle w = Some (Exception TypeError, w')"
proof -
  from assms(1) have len: "0 < length (populations (engine w))" by simp
  have "kernels (populations (engine (performSelection 0 w)) ! 0) = []"
    using len assms(2) by (rule selection_empties)
  moreover have "0 < capacity (populations (engine (performSelection 0 w)) ! 0)"
    using len assms(3) by (simp add: selection_capacity)
  ultimately obtain w' where
    "performBreeding 0 (performSelection 0 w) = Some (Exception TypeError, w')"
    using performBreeding_throws by blast
  with len show ?thesis
    by (simp add: evolutionCycle_def step_simps upt_rec [of 0] cycle_population_def bnd_def)
qed

theorem evolutionCycle_throws_witness:
  "\<exists>w w'. run cull_calls (new_service DEFAULT_EVOLUTION_CONFIG sample_host) = Some w \<and>
     evolutionInterval w \<and>
     kernels (populations (engine w) ! 0) = [0, 1, 2, 3, 4] \<and>
     evolutionCycle w = Some (Exception TypeError, w')"
proof -
  obtain w where w: "run cull_calls (new_service DEFAULT_EVOLUTION_CONFIG sample_host) = Some w"
    and p: "evolutionInterval w" "populations (engine w) \<noteq> []"
      "kernels (populations (engine w) ! 0) = [0, 1, 2, 3, 4]"
      "below_threshold w 0" "below_threshold w 1" "below_threshold w 2"
      "below_threshold w 3" "below_threshold w 4"
      "0 < capacity (populations (engine w) ! 0)"
    using culled by (auto split: option.splits)
  from p have "\<exists>w'. evolutionCycle w = Some (Exception TypeError, w')"
    by (intro evolutionCycle_throws) simp_all
  with w p show ?thesis by blast
qed

section \<open>The genes of a created kernel\<close>

text \<open>
  C2. The claim fails in the code. \<^verbatim>\<open>createKernel\<close> copies the gene arrays of the template
  with a spread, which makes new arrays of the same gene objects. Two kernels created
  from one template (with the same custom genome, if any) are different kernel objects
  whose genomes list the very addresses the template lists; no gene object is made
  (the gene store and its next free address are as before). A write to a gene of one
  kernel is therefore a write to the gene of the other kernel and of the template.
\<close>

theorem createKernel_shares_genes:
  "\<exists>a b w1 w2.
     createKernel template custom w = Some (Value a, w1) \<and>
     createKernel template custom w1 = Some (Value b, w2) \<and>
     a \<noteq> b \<and>
     coreGenes (genome (kernel_heap w2 a)) = coreGenes (template_genome template custom) \<and>
     coreGenes (genome (kernel_heap w2 b)) = coreGenes (template_genome template custom) \<and>
     regulatoryGenes (genome (kernel_heap w2 a)) =
       regulatoryGenes (template_genome template custom) \<and>
     regulatoryGenes (genome (kernel_heap w2 b)) =
       regulatoryGenes (template_genome template custom) \<and>
     set (or_empty (given_coreGenes (baseGenome template)))
       \<subseteq> set (coreGenes (template_genome template custom)) \<and>
     set (or_empty (given_regulatoryGenes (baseGenome template)))
       \<subseteq> set (regulatoryGenes (template_genome template custom)) \<and>
     gene_heap w2 = gene_heap w \<and> gene_next w2 = gene_next w"
  by (auto simp: createKernel_apply template_genome_def Let_def split: option.splits)

text \<open>
  An instance: a caller makes a switch gene (it gets address 12) and creates two kernels
  from a template with that gene. \<^verbatim>\<open>mutateGene\<close> on the first gene of the first kernel
  flips the gene of the second kernel and of the template.
\<close>

lemma mutateGene_leaks:
  "\<exists>w m w'.
     run [NewGene toggle_gene, CreateKernel toggle_template None, CreateKernel toggle_template None]
       (new_service DEFAULT_EVOLUTION_CONFIG sample_host) = Some w \<and>
     coreGenes (genome (kernel_heap w 0)) = [12] \<and>
     coreGenes (genome (kernel_heap w 1)) = [12] \<and>
     given_coreGenes (baseGenome toggle_template) = Some [12] \<and>
     gene_value (gene_heap w 12) = BooleanValue False \<and>
     mutateGene (hd (coreGenes (genome (kernel_heap w 0)))) w = Some (Value (Some m), w') \<and>
     gene_value (gene_heap w' (hd (coreGenes (genome (kernel_heap w' 1))))) = BooleanValue True \<and>
     gene_value (gene_heap w' (hd (or_empty (given_coreGenes (baseGenome toggle_template))))) =
       BooleanValue True"
  by (simp add: perform_def world_after_def alloc_gene_def eval_simps new_service_def
      createInitialState_def template_genes_def toggle_template_def kernel_template_def
      template_genome_def or_empty_def toggle_gene_def mutateGene_def set_gene_value_def
      Let_def del: One_nat_def cong: run_then_cong bnd_weak_cong)

section \<open>The fitness of a kernel\<close>






section \<open>Breeding from a single elite kernel\<close>






lemma find_in_populations_host [simp]:
  "find_in_populations (w\<lparr>host := h\<rparr>) ps i = find_in_populations w ps i"
  by (induction ps) (simp_all add: find_by_id_def split: option.splits)

lemma findKernel_host [simp]: "findKernel (w\<lparr>host := h\<rparr>) i = findKernel w i"
  by (simp add: findKernel_def find_by_id_def split: option.splits)











section \<open>Archived kernels stay archived\<close>

lemma breeding_slot_no_elite:
  "breeding_slot i [] w = Some (Exception TypeError,
     w\<lparr>host := (host w)\<lparr>random_calls := random_calls (host w) + 2\<rparr>\<rparr>)"
  by (simp add: breeding_slot_def choose_method_def choose_parents_def eval_simps
      pick_elite_empty)

lemma performBreeding_no_elite_world:
  assumes "elite_of w i = []" and "0 < newKernelsNeeded w i"
  shows "performBreeding i w = Some (Exception TypeError,
     w\<lparr>host := (host w)\<lparr>random_calls := random_calls (host w) + 2\<rparr>\<rparr>)"
proof -
  obtain n where n: "newKernelsNeeded w i = Suc n"
    using assms(2) by (cases "newKernelsNeeded w i") simp_all
  show ?thesis
    by (simp add: performBreeding_def bnd_reading assms(1) n upt_rec [of 0]
        bnd_exception [where m = "breeding_slot i []", OF breeding_slot_no_elite]
        del: upt_Suc)
qed

lemma cycle_stops_at_breeding:
  assumes "populations (engine w) \<noteq> []"
    and "elite_of (performSelection 0 w) 0 = []"
    and "0 < newKernelsNeeded (performSelection 0 w) 0"
  shows "evolutionCycle w = Some (Exception TypeError,
     (performSelection 0 w)\<lparr>host := (host (performSelection 0 w))
        \<lparr>random_calls := random_calls (host (performSelection 0 w)) + 2\<rparr>\<rparr>)"
proof -
  from assms(1) have len: "0 < length (populations (engine w))" by simp
  have b: "bnd (performBreeding 0) f (performSelection 0 w) = Some (Exception TypeError,
     (performSelection 0 w)\<lparr>host := (host (performSelection 0 w))
        \<lparr>random_calls := random_calls (host (performSelection 0 w)) + 2\<rparr>\<rparr>)" for f :: "unit \<Rightarrow> unit M"
    by (rule bnd_exception [where m = "performBreeding 0",
          OF performBreeding_no_elite_world [OF assms(2,3)]])
  have c: "cycle_population 0 w = Some (Exception TypeError,
     (performSelection 0 w)\<lparr>host := (host (performSelection 0 w))
        \<lparr>random_calls := random_calls (host (performSelection 0 w)) + 2\<rparr>\<rparr>)"
    by (simp add: cycle_population_def bnd_modify b)
  from len show ?thesis
    by (simp add: evolutionCycle_def bnd_reading upt_rec [of 0]
        bnd_exception [where m = "cycle_population 0", OF c]
        bnd_exception [where m = "bnd (cycle_population 0) f" for f,
          OF bnd_exception [where m = "cycle_population 0", OF c]])
qed

lemma run_append:
  "run (cs @ ds) w = (case run cs w of None \<Rightarrow> None | Some w' \<Rightarrow> run ds w')"
  by (induction cs arbitrary: w) (simp_all split: option.splits)

lemma activateKernel_returns: "\<exists>b w'. activateKernel kernelId w = Some (Value b, w')"
  by (auto simp add: activateKernel_def step_simps ret_apply split: option.splits)

text \<open>
  C4. Archiving is monotonic. If a run of calls from a new service reaches a world in
  which the kernel object \<open>a\<close> is in the archive (only selection puts kernels there), then
  after every further run of calls (timer ticks, \<^verbatim>\<open>breed\<close>, \<^verbatim>\<open>activateKernel\<close>,
  \<^verbatim>\<open>evaluateFitness\<close>, \<^verbatim>\<open>deprecateKernel\<close> and the others, whether they return or throw)
  that ends, \<open>a\<close> is still in the archive and in no population's kernel list.
\<close>

theorem archived_never_returns:
  assumes "run cs (new_service cfg h) = Some w"
    and "a \<in> set (archive (engine w))"
    and "run cs' w = Some w'"
  shows "a \<in> set (archive (engine w')) \<and>
         (\<forall>p \<in> set (populations (engine w')). a \<notin> set (kernels p))"
proof -
  have "sound w" using assms(1) by (rule reachable_sound)
  moreover have p: "progress (\<forall>c \<in> set cs'. unit_call c) w w'"
    using assms(3) by (rule run_progress)
  ultimately have s: "sound w'" by (simp add: progress_def)
  from p assms(2) have a: "a \<in> set (archive (engine w'))"
    by (auto simp: progress_def)
  with s show ?thesis
    by (auto simp: sound_def rosters_def)
qed

text \<open>
  An instance: after \<open>cull_calls\<close> a timer tick archives the founders of the first
  population (and throws in \<^verbatim>\<open>performBreeding\<close>); \<^verbatim>\<open>activateKernel\<close> on the first founder
  does not bring it back.
\<close>

lemma culled_tick:
  "\<exists>w. run (cull_calls @ [TimerTick]) (new_service DEFAULT_EVOLUTION_CONFIG sample_host) = Some w \<and>
     0 \<in> set (archive (engine w))"
proof -
  obtain w0 where w0: "run cull_calls (new_service DEFAULT_EVOLUTION_CONFIG sample_host) = Some w0"
    and p: "evolutionInterval w0" "populations (engine w0) \<noteq> []"
      "kernels (populations (engine w0) ! 0) = [0, 1, 2, 3, 4]"
      "below_threshold w0 0" "below_threshold w0 1" "below_threshold w0 2"
      "below_threshold w0 3" "below_threshold w0 4"
      "0 < capacity (populations (engine w0) ! 0)"
    using culled by (auto split: option.splits)
  have len: "0 < length (populations (engine w0))" using p(2) by simp
  have empty: "kernels (populations (engine (performSelection 0 w0)) ! 0) = []"
    using len p by (intro selection_empties) simp_all
  have cap: "0 < capacity (populations (engine (performSelection 0 w0)) ! 0)"
    using len p(9) by (simp add: selection_capacity)
  let ?w = "(performSelection 0 w0)\<lparr>host := (host (performSelection 0 w0))
        \<lparr>random_calls := random_calls (host (performSelection 0 w0)) + 2\<rparr>\<rparr>"
  have "evolutionCycle w0 = Some (Exception TypeError, ?w)"
    using p(2) empty cap
    by (intro cycle_stops_at_breeding) (simp_all add: elite_of_def newKernelsNeeded_def slice_def)
  then have "run (cull_calls @ [TimerTick]) (new_service DEFAULT_EVOLUTION_CONFIG sample_host)
      = Some ?w"
    using w0 p(1) by (simp add: run_append perform_def world_after_def)
  moreover have "0 \<in> set (archive (engine ?w))"
    using p by (simp add: performSelection_archive set_toArchive)
  ultimately show ?thesis by blast
qed

theorem archived_never_returns_witness:
  "\<exists>w w'. run (cull_calls @ [TimerTick]) (new_service DEFAULT_EVOLUTION_CONFIG sample_host) = Some w \<and>
     0 \<in> set (archive (engine w)) \<and>
     run [ActivateKernel ''kernel-1700000000000-i''] w = Some w' \<and>
     0 \<in> set (archive (engine w')) \<and>
     0 \<notin> set (concat (rosters w'))"
proof -
  obtain w where w:
    "run (cull_calls @ [TimerTick]) (new_service DEFAULT_EVOLUTION_CONFIG sample_host) = Some w"
    "0 \<in> set (archive (engine w))"
    using culled_tick by blast
  obtain b w' where "activateKernel ''kernel-1700000000000-i'' w = Some (Value b, w')"
    using activateKernel_returns by blast
  then have w': "run [ActivateKernel ''kernel-1700000000000-i''] w = Some w'"
    by (simp add: perform_def world_after_def)
  from archived_never_returns [OF w w']
  have "0 \<in> set (archive (engine w')) \<and> 0 \<notin> set (concat (rosters w'))"
    by (auto simp: rosters_def)
  with w w' show ?thesis by blast
qed

section \<open>Kernels with the same id\<close>

lemma still_host_fields [simp]:
  "randoms still_host = (\<lambda>n. 1 / 2)"
  "random_calls still_host = 0"
  "clock still_host = (\<lambda>n. 0)"
  "clock_calls still_host = 0"
  "radix36_text still_host = (\<lambda>x. ''0.i'')"
  by (simp_all add: still_host_def)

lemma run_stalled: "run [StartEvolution] (new_service cfg still_host) = Some (stalled cfg)"
  by (simp add: run_defs eval_simps upt5 upt20 text_simps stalled_def twin_kernel_def
       twin_event_def seed_population_def empty_statistics_def type_text_def Let_def
       del: One_nat_def cong: run_then_cong bnd_weak_cong)

lemma stalled_fields [simp]:
  "populations (engine (stalled cfg)) =
     [seed_population cfg inference [0, 1, 2, 3, 4],
      seed_population cfg reasoning [5, 6, 7, 8, 9],
      seed_population cfg memory [10, 11, 12, 13, 14],
      seed_population cfg meta [15, 16, 17, 18, 19]]"
  "archive (engine (stalled cfg)) = []"
  "config (engine (stalled cfg)) = cfg"
  "kernel_next (stalled cfg) = 20"
  "evolutionInterval (stalled cfg) = True"
  "host (stalled cfg) = still_host\<lparr>random_calls := 20, clock_calls := 60\<rparr>"
  by (simp_all add: stalled_def)

lemma stalled_heap [simp]: "a < 20 \<Longrightarrow> kernel_heap (stalled cfg) a = twin_kernel a"
  by (simp add: stalled_def fold_fun_upd_upt)

lemma twin_kernel_fields [simp]:
  "fitness (twin_kernel n) = createInitialFitness"
  "kernel_state (twin_kernel n) = DORMANT"
  "kernel_id (twin_kernel n) = ''kernel-0-i''"
  "lastActivated (twin_kernel n) = 0"
  by (simp_all add: twin_kernel_def Let_def)

lemma run_from_stalled:
  "run (StartEvolution # cs) (new_service cfg still_host) = run cs (stalled cfg)"
  using run_stalled [of cfg] by (simp split: option.splits)

lemma find_append:
  "find P (xs @ ys) = (case find P xs of None \<Rightarrow> find P ys | Some x \<Rightarrow> Some x)"
  by (induction xs) simp_all

lemma find_in_populations_rosters:
  "find_in_populations w ps i =
     find (\<lambda>a. kernel_id (kernel_heap w a) = i) (concat (map kernels ps))"
  by (induction ps) (simp_all add: find_by_id_def find_append split: option.splits)

lemma findKernel_rosters:
  "findKernel w i =
     find (\<lambda>a. kernel_id (kernel_heap w a) = i) (concat (rosters w) @ archive (engine w))"
  by (simp add: findKernel_def find_in_populations_rosters find_by_id_def find_append rosters_def
      split: option.splits)

lemma fold_archive_more [simp]:
  "host (fold (\<lambda>a. update_kernel a g) xs w) = host w"
  "evolutionInterval (fold (\<lambda>a. update_kernel a g) xs w) = evolutionInterval w"
  by (induction xs arbitrary: w) simp_all

lemma performSelection_frame [simp]:
  "config (engine (performSelection i w)) = config (engine w)"
  "host (performSelection i w) = host w"
  "evolutionInterval (performSelection i w) = evolutionInterval w"
  by (simp_all add: performSelection_def Let_def update_population_def)

lemma twins_scored:
  "\<exists>w. run [StartEvolution, EvaluateFitness ''kernel-0-i'' (uniform_scores (1 / 10))]
          (new_service barren_config still_host) = Some w \<and>
     evolutionInterval w \<and>
     rosters w = [[0, 1, 2, 3, 4], [5, 6, 7, 8, 9], [10, 11, 12, 13, 14], [15, 16, 17, 18, 19]] \<and>
     archive (engine w) = [] \<and>
     elitismRate (config (engine w)) = 0 \<and>
     archiveThreshold (config (engine w)) = 3 / 10 \<and>
     capacity (populations (engine w) ! 0) = 12 \<and>
     overall (fitness (kernel_heap w 0)) = 1 / 10 \<and>
     evaluations (fitness (kernel_heap w 0)) = 1 \<and>
     (\<forall>a \<in> {1, 2, 3, 4}. fitness (kernel_heap w a) = createInitialFitness) \<and>
     (\<forall>a \<in> {0, 1, 2, 3, 4}. kernel_state (kernel_heap w a) = DORMANT \<and>
        kernel_id (kernel_heap w a) = ''kernel-0-i'' \<and> lastActivated (kernel_heap w a) = 0)"
  unfolding run_from_stalled
  by (simp add: call_defs eval_simps world_defs update_kernel_def barren_config_def
      del: One_nat_def cong: run_then_cong bnd_weak_cong)

text \<open>
  C10, as claimed, fails in a world that calls of the service reach. Under a host whose
  clock stands still and whose random numbers repeat, all kernels get the id
  \<^verbatim>\<open>kernel-0-i\<close>. After \<^verbatim>\<open>startEvolution()\<close>, an \<^verbatim>\<open>evaluateFitness\<close> of that id with scores 0.1
  (it scores the first founder) and a timer tick (selection archives the first founder;
  with the elitism rate 0 the tick then ends in \<^verbatim>\<open>performBreeding\<close>), the kernel object 0
  is in the archive, ARCHIVED, and in no population. \<^verbatim>\<open>activateKernel\<close> of its id returns
  true, but \<^verbatim>\<open>findKernel\<close> has found the kernel object 1 of the first population, which
  becomes ACTIVE: the archived kernel is still ARCHIVED and its \<^verbatim>\<open>lastActivated\<close> is
  still 0.
\<close>

theorem activateKernel_finds_twin:
  "\<exists>w w'. run [StartEvolution, EvaluateFitness ''kernel-0-i'' (uniform_scores (1 / 10)), TimerTick]
          (new_service barren_config still_host) = Some w \<and>
     archive (engine w) = [0] \<and>
     rosters w = [[1, 2, 3, 4], [5, 6, 7, 8, 9], [10, 11, 12, 13, 14], [15, 16, 17, 18, 19]] \<and>
     kernel_state (kernel_heap w 0) = ARCHIVED \<and>
     kernel_id (kernel_heap w 0) = ''kernel-0-i'' \<and>
     activateKernel ''kernel-0-i'' w = Some (Value True, w') \<and>
     kernel_state (kernel_heap w' 0) = ARCHIVED \<and>
     lastActivated (kernel_heap w' 0) = 0 \<and>
     kernel_state (kernel_heap w' 1) = ACTIVE"
proof -
  obtain w where w:
      "run [StartEvolution, EvaluateFitness ''kernel-0-i'' (uniform_scores (1 / 10))]
         (new_service barren_config still_host) = Some w"
    and tick: "evolutionInterval w"
    and r: "rosters w = [[0, 1, 2, 3, 4], [5, 6, 7, 8, 9], [10, 11, 12, 13, 14], [15, 16, 17, 18, 19]]"
    and a: "archive (engine w) = []"
    and cfg: "elitismRate (config (engine w)) = 0" "archiveThreshold (config (engine w)) = 3 / 10"
    and cap: "capacity (populations (engine w) ! 0) = 12"
    and f0: "overall (fitness (kernel_heap w 0)) = 1 / 10" "evaluations (fitness (kernel_heap w 0)) = 1"
    and f: "\<forall>a \<in> {1, 2, 3, 4}. fitness (kernel_heap w a) = createInitialFitness"
    and k: "\<forall>a \<in> {0, 1, 2, 3, 4}. kernel_state (kernel_heap w a) = DORMANT \<and>
        kernel_id (kernel_heap w a) = ''kernel-0-i'' \<and> lastActivated (kernel_heap w a) = 0"
    using twins_scored by blast
  from r have len: "length (populations (engine w)) = 4"
    by (metis length_map rosters_def length_Cons list.size(3) numeral_Bit0 Suc_eq_plus1 add_2_eq_Suc' numeral_2_eq_2)
  then have ne: "populations (engine w) \<noteq> []" by auto
  have k0: "kernels (populations (engine w) ! 0) = [0, 1, 2, 3, 4]"
    using r len by (metis nth_map rosters_def nth_Cons_0 zero_less_numeral)
  have ranked: "ranked w 0 = [1, 2, 3, 4, 0]"
    using f0 f by (simp add: ranked_def k0 createInitialFitness_def)
  have toA: "toArchive w 0 = [0]"
    using f0 f cfg by (simp add: toArchive_def ranked below_threshold_def createInitialFitness_def)
  let ?s = "performSelection 0 w"
  let ?w2 = "?s\<lparr>host := (host ?s)\<lparr>random_calls := random_calls (host ?s) + 2\<rparr>\<rparr>"
  have rs: "rosters ?s = [[1, 2, 3, 4], [5, 6, 7, 8, 9], [10, 11, 12, 13, 14], [15, 16, 17, 18, 19]]"
    using k by (simp add: performSelection_rosters r ranked toA)
  then have ks: "kernels (populations (engine ?s) ! 0) = [1, 2, 3, 4]"
    using len by (metis nth_map rosters_def nth_Cons_0 performSelection_length zero_less_numeral)
  have "evolutionCycle w = Some (Exception TypeError, ?w2)"
    using ne cfg cap len
    by (intro cycle_stops_at_breeding)
       (simp_all add: elite_of_def newKernelsNeeded_def slice_def relative_index_def ks
          selection_capacity)
  with w tick have run:
    "run [StartEvolution, EvaluateFitness ''kernel-0-i'' (uniform_scores (1 / 10)), TimerTick]
       (new_service barren_config still_host) = Some ?w2"
    using run_append [of "[StartEvolution, EvaluateFitness ''kernel-0-i'' (uniform_scores (1 / 10))]"
        "[TimerTick]" "new_service barren_config still_host"]
    by (simp add: perform_def world_after_def)
  have r2: "rosters ?w2 = [[1, 2, 3, 4], [5, 6, 7, 8, 9], [10, 11, 12, 13, 14], [15, 16, 17, 18, 19]]"
    using rs by (simp add: rosters_def)
  have a2: "archive (engine ?w2) = [0]"
    by (simp add: performSelection_archive a toA)
  have h2: "kernel_heap ?s b =
      (if b = 0 then (kernel_heap w 0)\<lparr>kernel_state := ARCHIVED\<rparr> else kernel_heap w b)" for b
    by (simp add: performSelection_heap toA)
  have found: "findKernel ?s ''kernel-0-i'' = Some 1"
    using k unfolding findKernel_rosters rs by (simp add: h2)
  have "\<exists>w'. activateKernel ''kernel-0-i'' ?w2 = Some (Value True, w') \<and>
     kernel_state (kernel_heap w' 0) = ARCHIVED \<and>
     lastActivated (kernel_heap w' 0) = 0 \<and>
     kernel_state (kernel_heap w' 1) = ACTIVE"
    using k by (simp add: activateKernel_def step_simps found h2)
  then obtain w' where act: "activateKernel ''kernel-0-i'' ?w2 = Some (Value True, w')"
    and post: "kernel_state (kernel_heap w' 0) = ARCHIVED" "lastActivated (kernel_heap w' 0) = 0"
      "kernel_state (kernel_heap w' 1) = ACTIVE"
    by blast
  have s0: "kernel_state (kernel_heap ?w2 0) = ARCHIVED"
    by (simp add: h2)
  have i0: "kernel_id (kernel_heap ?w2 0) = ''kernel-0-i''"
    using k by (simp add: h2)
  from run r2 a2 s0 i0 act post show ?thesis
    by blast
qed

end
